theory Spec2Isabelle
  imports Complex_Main "HOL-Library.Log_Nat"
begin

section \<open>The HTA validation engine (\<open>ValidationService\<close>)\<close>

text \<open>
  A shallow embedding of \<open>ValidationService\<close> (the second module of
  \<open>src/services/aiService.ts\<close>, lines 426-1000) and of the types it uses
  (\<open>src/types/index.ts\<close>).

  Conventions of the embedding.
  \<^item> A node array is a list; an absent \<open>children\<close> or \<open>dependencies\<close> array behaves
    in every function of the service like the empty array (each use is guarded by
    \<open>node.children && ...\<close>), so both are plain lists.
  \<^item> An optional field (\<open>description?\<close>, \<open>estimatedHours?\<close>) is an \<open>option\<close>;
    \<open>None\<close> is \<open>undefined\<close>.
  \<^item> A string is the list of its UTF-16 code units (\<open>ustring\<close>), which is what
    \<open>length\<close>, \<open>substring\<close>, \<open>===\<close> and \<open>trim\<close> work on. \<open>type\<close> and \<open>priority\<close> are
    strings: the service itself checks them against the allowed values at run time.
  \<^item> A number is an IEEE 754 double (\<open>number\<close>): \<open>NaN\<close>, an infinity, or a finite
    value held as the rational it denotes. Every arithmetic operation computes the exact
    result and rounds it to the nearest double, ties to even (\<open>dbl\<close>). The sign of zero
    is not modelled: no divisor of the service can be a negative zero, and no other
    operation it uses tells the two zeros apart.
  \<^item> Every forest the service receives comes out of \<open>JSON.parse\<close>. The field
    \<open>estimatedHours\<close> holds the number as the JSON text writes it, and \<open>hours\<close> is the
    double that \<open>JSON.parse\<close> makes of it, which is the value every function reads.
  \<^item> The counters of the service (numbers of nodes, of issues) are natural numbers;
    they stay far below \<open>2^53\<close>, where doubles count exactly.
  \<^item> The service pushes issues into one shared array; every pass is modelled by the
    list of issues it pushes, in the order of the pushes, and the caller appends the lists.
  \<^item> A message built by a template literal is kept as the sequence of its pieces
    (\<open>template\<close>): the literal text, the interpolated strings and the interpolated
    numbers, unformatted.
  \<^item> The \<open>metadata\<close> bag of a node is never read by the service and is left out.
\<close>

subsection \<open>JavaScript numbers\<close>

datatype number = NaN | PosInf | NegInf | Num rat

text \<open>
  The binade of a rational \<open>x\<close> other than 0: the integer \<open>e\<close> with
  \<open>2^e \<le> |x| < 2^(e+1)\<close>. With \<open>|x| = p / q\<close> it is the difference of the bit lengths
  of \<open>p\<close> and \<open>q\<close>, or one less.
\<close>

definition binade :: "rat \<Rightarrow> int" where
  "binade x =
     (let (p, q) = quotient_of \<bar>x\<bar>;
          e = bitlen p - bitlen q
      in if 2 powi e \<le> \<bar>x\<bar> then e else e - 1)"

definition roundTiesToEven :: "rat \<Rightarrow> int" where
  "roundTiesToEven y =
     (let n = \<lfloor>y\<rfloor>;
          f = y - of_int n
      in if f < 1 / 2 then n
         else if 1 / 2 < f then n + 1
         else if even n then n else n + 1)"

text \<open>
  The double nearest to a rational, ties to even. Doubles of binade \<open>e\<close> are the
  multiples of \<open>2^(e - 52)\<close>; below the binade -1022 (subnormal numbers) the spacing
  stays \<open>2^(-1074)\<close>; a result of magnitude \<open>2^1024\<close> is an overflow to infinity.
\<close>

definition dbl :: "rat \<Rightarrow> number" where
  "dbl x =
     (if x = 0 then Num 0
      else (let q = 2 powi (max (binade x) (- 1022) - 52);
                r = of_int (roundTiesToEven (x / q)) * q
            in if 2 powi 1024 \<le> r then PosInf
               else if r \<le> - (2 powi 1024) then NegInf
               else Num r))"

fun js_add :: "number \<Rightarrow> number \<Rightarrow> number" where
  "js_add (Num a) (Num b) = dbl (a + b)"
| "js_add NaN _ = NaN"
| "js_add _ NaN = NaN"
| "js_add PosInf NegInf = NaN"
| "js_add NegInf PosInf = NaN"
| "js_add PosInf _ = PosInf"
| "js_add _ PosInf = PosInf"
| "js_add NegInf _ = NegInf"
| "js_add _ NegInf = NegInf"

fun js_neg :: "number \<Rightarrow> number" where
  "js_neg NaN = NaN"
| "js_neg PosInf = NegInf"
| "js_neg NegInf = PosInf"
| "js_neg (Num a) = Num (- a)"

definition js_sub :: "number \<Rightarrow> number \<Rightarrow> number" where
  "js_sub a b = js_add a (js_neg b)"

fun js_mul :: "number \<Rightarrow> number \<Rightarrow> number" where
  "js_mul (Num a) (Num b) = dbl (a * b)"
| "js_mul NaN _ = NaN"
| "js_mul _ NaN = NaN"
| "js_mul PosInf (Num b) = (if b = 0 then NaN else if 0 < b then PosInf else NegInf)"
| "js_mul NegInf (Num b) = (if b = 0 then NaN else if 0 < b then NegInf else PosInf)"
| "js_mul (Num a) PosInf = (if a = 0 then NaN else if 0 < a then PosInf else NegInf)"
| "js_mul (Num a) NegInf = (if a = 0 then NaN else if 0 < a then NegInf else PosInf)"
| "js_mul PosInf PosInf = PosInf"
| "js_mul NegInf NegInf = PosInf"
| "js_mul PosInf NegInf = NegInf"
| "js_mul NegInf PosInf = NegInf"

text \<open>Division: \<open>0 / 0\<close> is \<open>NaN\<close>, any other finite number over zero is infinite.\<close>

fun js_div :: "number \<Rightarrow> number \<Rightarrow> number" where
  "js_div (Num a) (Num b) =
     (if b = 0 then (if a = 0 then NaN else if 0 < a then PosInf else NegInf)
      else dbl (a / b))"
| "js_div NaN _ = NaN"
| "js_div _ NaN = NaN"
| "js_div (Num a) PosInf = Num 0"
| "js_div (Num a) NegInf = Num 0"
| "js_div PosInf (Num b) = (if 0 \<le> b then PosInf else NegInf)"
| "js_div NegInf (Num b) = (if 0 \<le> b then NegInf else PosInf)"
| "js_div PosInf PosInf = NaN"
| "js_div PosInf NegInf = NaN"
| "js_div NegInf PosInf = NaN"
| "js_div NegInf NegInf = NaN"

text \<open>The comparison \<open>a < b\<close>: false as soon as one side is \<open>NaN\<close>.\<close>

fun js_lt :: "number \<Rightarrow> number \<Rightarrow> bool" where
  "js_lt (Num a) (Num b) = (a < b)"
| "js_lt NaN _ = False"
| "js_lt _ NaN = False"
| "js_lt _ NegInf = False"
| "js_lt PosInf _ = False"
| "js_lt NegInf _ = True"
| "js_lt _ PosInf = True"

text \<open>
  \<open>Math.round\<close> returns the integer nearest to its argument, a tie going towards plus
  infinity; the integer is a double, so nothing is rounded twice.
\<close>

definition round_half_up :: "rat \<Rightarrow> int" where
  "round_half_up x = \<lfloor>x + 1 / 2\<rfloor>"

fun js_round :: "number \<Rightarrow> number" where
  "js_round (Num a) = Num (of_int (round_half_up a))"
| "js_round x = x"

text \<open>\<open>Math.min\<close> and \<open>Math.max\<close> of two numbers: \<open>NaN\<close> as soon as one is.\<close>

fun js_min :: "number \<Rightarrow> number \<Rightarrow> number" where
  "js_min NaN _ = NaN"
| "js_min _ NaN = NaN"
| "js_min a b = (if js_lt b a then b else a)"

fun js_max :: "number \<Rightarrow> number \<Rightarrow> number" where
  "js_max NaN _ = NaN"
| "js_max _ NaN = NaN"
| "js_max a b = (if js_lt a b then b else a)"

text \<open>A number as a condition: false for 0 and for \<open>NaN\<close>.\<close>

definition truthyNumber :: "number \<Rightarrow> bool" where
  "truthyNumber x = (x \<noteq> Num 0 \<and> x \<noteq> NaN)"

subsection \<open>JavaScript strings\<close>

text \<open>
  A code unit is a natural number below 65536. \<open>js\<close> is the string of an ASCII literal
  of the source.
\<close>

type_synonym ustring = "nat list"

definition js :: "string \<Rightarrow> ustring" where
  "js s = map of_char s"

text \<open>
  \<open>String.prototype.trim\<close> removes leading and trailing white space and line
  terminators: tab, line feed, vertical tab, form feed, carriage return, space, no-break
  space, U+1680, U+2000 to U+200A, U+2028, U+2029, U+202F, U+205F, U+3000 and U+FEFF.
\<close>

definition isWhiteSpace :: "nat \<Rightarrow> bool" where
  "isWhiteSpace c =
     (c \<in> set [0x09, 0x0A, 0x0B, 0x0C, 0x0D, 0x20, 0xA0, 0x1680, 0x2028, 0x2029, 0x202F,
                0x205F, 0x3000, 0xFEFF]
      \<or> (0x2000 \<le> c \<and> c \<le> 0x200A))"

definition trim :: "ustring \<Rightarrow> ustring" where
  "trim s = rev (dropWhile isWhiteSpace (rev (dropWhile isWhiteSpace s)))"

text \<open>\<open>!s || s.trim() === ''\<close> for a string \<open>s\<close> that may be \<open>undefined\<close>.\<close>

definition blank :: "ustring option \<Rightarrow> bool" where
  "blank s = (case s of None \<Rightarrow> True | Some t \<Rightarrow> t = [] \<or> trim t = [])"

subsection \<open>Data model (\<open>src/types/index.ts\<close>)\<close>

datatype HTANode = HTANode
  (id_node: ustring)
  (type_node: ustring)
  (title: ustring)
  (description: "ustring option")
  (priority: ustring)
  (estimatedHours: "rat option")
  (dependencies: "ustring list")
  (children: "HTANode list")

text \<open>
  The value of \<open>node.estimatedHours\<close> at run time: \<open>undefined\<close>, or the double nearest to
  the number of the JSON text (an infinity when the text overflows).
\<close>

definition hours :: "HTANode \<Rightarrow> number option" where
  "hours node = map_option dbl (estimatedHours node)"

text \<open>A number that may be \<open>undefined\<close>, as a condition.\<close>

definition truthy :: "number option \<Rightarrow> bool" where
  "truthy h = (case h of None \<Rightarrow> False | Some x \<Rightarrow> truthyNumber x)"

text \<open>\<open>h || 0\<close>.\<close>

definition orZero :: "number option \<Rightarrow> number" where
  "orZero h = (case h of None \<Rightarrow> Num 0 | Some x \<Rightarrow> if truthyNumber x then x else Num 0)"

datatype IssueType = Error | Warning | Suggestion

datatype Severity = Low | Medium | High

datatype piece = Lit string | Str ustring | Val number

type_synonym template = "piece list"

record ValidationIssue =
  type_issue :: IssueType
  code :: string
  message :: template
  nodeId :: "ustring option"
  severity :: Severity
  autoFixable :: bool

record Metrics =
  depth :: nat
  breadth :: nat
  complexity :: nat
  completeness :: number
  feasibility :: number

record HTAValidationResult =
  isValid :: bool
  issues :: "ValidationIssue list"
  suggestions :: "template list"
  score :: number
  metrics :: Metrics

subsection \<open>Traversals\<close>

text \<open>
  \<open>traverseNodes(nodes, callback)\<close> calls the callback on every node in pre-order:
  a node, then its subtree, then its later siblings. It is modelled by the list of the
  nodes in the order of the calls; a callback that pushes issues or counts is then a
  map or a fold over that list.
\<close>

function traverseNodes :: "HTANode list \<Rightarrow> HTANode list" where
  "traverseNodes [] = []"
| "traverseNodes (node # nodes) = node # traverseNodes (children node) @ traverseNodes nodes"
  by pat_completeness auto
termination
proof (relation "measure (size_list size)")
  fix node :: HTANode and nodes :: "HTANode list"
  show "(children node, node # nodes) \<in> measure (size_list size)"
    by (cases node) simp
qed simp_all

text \<open>\<open>countNodes\<close>: the length of the array plus the counts of the children arrays.\<close>

function countNodes :: "HTANode list \<Rightarrow> nat" where
  "countNodes [] = 0"
| "countNodes (node # nodes) = Suc (countNodes (children node) + countNodes nodes)"
  by pat_completeness auto
termination
proof (relation "measure (size_list size)")
  fix node :: HTANode and nodes :: "HTANode list"
  show "(children node, node # nodes) \<in> measure (size_list size)"
    by (cases node) simp
qed simp_all

text \<open>
  \<open>findNodeById\<close>: the first node in pre-order whose id is the one looked for, or
  \<open>null\<close> (\<open>None\<close>).
\<close>

function findNodeById :: "HTANode list \<Rightarrow> ustring \<Rightarrow> HTANode option" where
  "findNodeById [] i = None"
| "findNodeById (node # nodes) i =
     (if id_node node = i then Some node
      else (case findNodeById (children node) i of
              Some found \<Rightarrow> Some found
            | None \<Rightarrow> findNodeById nodes i))"
  by pat_completeness auto
termination
proof (relation "measure (\<lambda>(nodes, i). size_list size nodes)")
  fix node :: HTANode and nodes :: "HTANode list" and i :: ustring
  show "((children node, i), (node # nodes, i)) \<in> measure (\<lambda>(nodes, i). size_list size nodes)"
    by (cases node) simp
qed simp_all

subsection \<open>Hierarchy pass\<close>

definition typeHierarchy :: "ustring list" where
  "typeHierarchy = map js [''objective'', ''strategy'', ''initiative'', ''task'', ''subtask'']"

text \<open>\<open>Array.prototype.indexOf\<close>: the first index of the element, or -1.\<close>

fun indexOf :: "ustring list \<Rightarrow> ustring \<Rightarrow> int" where
  "indexOf [] x = - 1"
| "indexOf (y # ys) x =
     (if y = x then 0 else (let r = indexOf ys x in if r = - 1 then - 1 else r + 1))"

text \<open>
  \<open>validateNodeTypeHierarchy(node, siblings, issues, path)\<close>. The body reads neither
  \<open>siblings\<close> nor \<open>path\<close>, which are left out.
\<close>

definition validateNodeTypeHierarchy :: "HTANode \<Rightarrow> ValidationIssue list" where
  "validateNodeTypeHierarchy node =
     (let currentTypeIndex = indexOf typeHierarchy (type_node node) in
      if currentTypeIndex = - 1 then
        [\<lparr> type_issue = Error, code = ''INVALID_NODE_TYPE'',
           message = [Lit ''Invalid node type \"'', Str (type_node node),
                      Lit ''\" for node \"'', Str (title node), Lit ''\"''],
           nodeId = Some (id_node node), severity = High, autoFixable = True \<rparr>]
      else
        concat (map (\<lambda>child.
          (let childTypeIndex = indexOf typeHierarchy (type_node child) in
           if childTypeIndex \<noteq> - 1 \<and> childTypeIndex \<le> currentTypeIndex then
             [\<lparr> type_issue = Error, code = ''INVALID_HIERARCHY'',
                message = [Lit ''Child node \"'', Str (title child), Lit ''\" has type \"'',
                           Str (type_node child), Lit ''\" which should not be under \"'',
                           Str (type_node node), Lit ''\"''],
                nodeId = Some (id_node child), severity = High, autoFixable = True \<rparr>]
           else [])) (children node)))"

text \<open>
  \<open>validateHierarchy(nodes, issues, depth, path)\<close>: the depth warning, then the
  \<open>forEach\<close> loop over the nodes with their indices (\<open>validateHierarchy_forEach\<close>, from
  index \<open>index\<close> on). The parameter \<open>depth\<close> is written \<open>depth'\<close>. The path is a
  template: empty at the root, then the indices separated by dots.
\<close>

function validateHierarchy :: "HTANode list \<Rightarrow> nat \<Rightarrow> template \<Rightarrow> ValidationIssue list"
  and validateHierarchy_forEach ::
    "HTANode list \<Rightarrow> nat \<Rightarrow> nat \<Rightarrow> template \<Rightarrow> ValidationIssue list" where
  "validateHierarchy nodes depth' path =
     (if depth' > 6 then
        [\<lparr> type_issue = Warning, code = ''EXCESSIVE_DEPTH'',
           message = Lit ''Hierarchy depth exceeds recommended maximum (6 levels) at path: ''
                     # path,
           nodeId = None, severity = Medium, autoFixable = False \<rparr>]
      else [])
     @ validateHierarchy_forEach nodes 0 depth' path"
| "validateHierarchy_forEach [] index depth' path = []"
| "validateHierarchy_forEach (node # nodes) index depth' path =
     (let currentPath = (if path \<noteq> [] then path @ [Lit ''.'', Val (Num (of_nat index))]
                         else [Val (Num (of_nat index))]) in
        validateNodeTypeHierarchy node
        @ (if length (children node) > 8 then
             [\<lparr> type_issue = Warning, code = ''TOO_MANY_CHILDREN'',
                message = [Lit ''Node \"'', Str (title node), Lit ''\" has '',
                           Val (Num (of_nat (length (children node)))),
                           Lit '' children. Consider grouping some tasks.''],
                nodeId = Some (id_node node), severity = Medium, autoFixable = False \<rparr>]
           else [])
        @ (if length (children node) > 0 then
             validateHierarchy (children node) (depth' + 1) currentPath
           else []))
     @ validateHierarchy_forEach nodes (index + 1) depth' path"
  by pat_completeness auto
termination
proof (relation "measure (\<lambda>x. case x of
          Inl (nodes, depth', path) \<Rightarrow> Suc (2 * size_list size nodes)
        | Inr (nodes, index, depth', path) \<Rightarrow> 2 * size_list size nodes)")
  fix node :: HTANode and nodes :: "HTANode list" and index depth' :: nat
    and path x :: template
  show "(Inl (children node, depth' + 1, x), Inr (node # nodes, index, depth', path))
          \<in> measure (\<lambda>x. case x of
               Inl (nodes, depth', path) \<Rightarrow> Suc (2 * size_list size nodes)
             | Inr (nodes, index, depth', path) \<Rightarrow> 2 * size_list size nodes)"
    by (cases node) simp
qed simp_all

subsection \<open>Node field pass\<close>

text \<open>The callback of \<open>validateNodeProperties\<close>: the issues it pushes for one node.\<close>

definition validateNodeProperties_node :: "HTANode \<Rightarrow> ValidationIssue list" where
  "validateNodeProperties_node node =
     (if blank (Some (id_node node)) then
        [\<lparr> type_issue = Error, code = ''MISSING_ID'',
           message = [Lit ''Node \"'', Str (title node), Lit ''\" is missing a valid ID''],
           nodeId = Some (id_node node), severity = High, autoFixable = True \<rparr>]
      else [])
     @ (if blank (Some (title node)) then
          [\<lparr> type_issue = Error, code = ''MISSING_TITLE'',
             message = [Lit ''Node with ID \"'', Str (id_node node), Lit ''\" is missing a title''],
             nodeId = Some (id_node node), severity = High, autoFixable = False \<rparr>]
        else [])
     @ (if title node \<noteq> [] \<and> length (title node) > 100 then
          [\<lparr> type_issue = Warning, code = ''LONG_TITLE'',
             message = [Lit ''Title for \"'', Str (take 50 (title node)),
                        Lit ''...\" is too long ('', Val (Num (of_nat (length (title node)))),
                        Lit '' chars). Consider shortening.''],
             nodeId = Some (id_node node), severity = Low, autoFixable = False \<rparr>]
        else [])
     @ (if title node \<noteq> [] \<and> length (title node) < 5 then
          [\<lparr> type_issue = Warning, code = ''SHORT_TITLE'',
             message = [Lit ''Title \"'', Str (title node),
                        Lit ''\" is very short. Consider being more descriptive.''],
             nodeId = Some (id_node node), severity = Low, autoFixable = False \<rparr>]
        else [])
     @ (if priority node \<notin> set (map js [''low'', ''medium'', ''high'', ''critical'']) then
          [\<lparr> type_issue = Error, code = ''INVALID_PRIORITY'',
             message = [Lit ''Node \"'', Str (title node), Lit ''\" has invalid priority \"'',
                        Str (priority node), Lit ''\"''],
             nodeId = Some (id_node node), severity = Medium, autoFixable = True \<rparr>]
        else [])
     @ (if blank (description node) \<and> type_node node \<in> set (map js [''task'', ''subtask'']) then
          [\<lparr> type_issue = Warning, code = ''MISSING_DESCRIPTION'',
             message = [Str (type_node node), Lit '' \"'', Str (title node),
                        Lit ''\" should have a description for clarity''],
             nodeId = Some (id_node node), severity = Medium, autoFixable = False \<rparr>]
        else [])"

definition validateNodeProperties :: "HTANode list \<Rightarrow> ValidationIssue list" where
  "validateNodeProperties nodes = concat (map validateNodeProperties_node (traverseNodes nodes))"

subsection \<open>Dependency pass and cycle detection\<close>

text \<open>
  \<open>hasCircularDependency(node, allNodes, visited)\<close>. \<open>visited\<close> is a \<open>Set\<close> of ids: the
  node's id is added to it and every recursive call receives a copy (\<open>new Set(visited)\<close>),
  so the set holds the ids on the path from the starting node. The \<open>for\<close> loop returns
  \<open>true\<close> at the first dependency whose node is found and reports a cycle.
\<close>

function hasCircularDependency :: "HTANode \<Rightarrow> HTANode list \<Rightarrow> ustring set \<Rightarrow> bool" where
  "hasCircularDependency node allNodes visited =
     (if id_node node \<in> visited then True
      else list_ex (\<lambda>depId.
             (case findNodeById allNodes depId of
                None \<Rightarrow> False
              | Some depNode \<Rightarrow>
                  hasCircularDependency depNode allNodes (insert (id_node node) visited)))
           (dependencies node))"
  by pat_completeness auto

termination
proof (relation "measure (\<lambda>(node, allNodes, visited).
          card (id_node ` set (traverseNodes allNodes) - visited)
          + (if id_node node \<in> id_node ` set (traverseNodes allNodes) then 0 else 1))")
  show "wf (measure (\<lambda>(node, allNodes, visited).
          card (id_node ` set (traverseNodes allNodes) - visited)
          + (if id_node node \<in> id_node ` set (traverseNodes allNodes) then 0 else 1)))"
    by simp
next
  fix node :: HTANode and allNodes :: "HTANode list" and visited :: "ustring set"
    and depId :: ustring and depNode :: HTANode
  assume fresh: "id_node node \<notin> visited"
    and found: "findNodeById allNodes depId = Some depNode"
  have find_mem: "findNodeById ns i = Some n \<Longrightarrow> n \<in> set (traverseNodes ns)" for ns i n
    by (induction ns i rule: findNodeById.induct) (auto split: if_splits option.splits)
  let ?ids = "id_node ` set (traverseNodes allNodes)"
  have dep: "id_node depNode \<in> ?ids"
    using find_mem [OF found] by simp
  have fin: "finite (?ids - visited)"
    by simp
  have "card (?ids - insert (id_node node) visited)
          < card (?ids - visited) + (if id_node node \<in> ?ids then 0 else 1)"
  proof (cases "id_node node \<in> ?ids")
    case True
    then have "?ids - insert (id_node node) visited \<subset> ?ids - visited"
      using fresh by auto
    then show ?thesis
      using True fin by (simp add: psubset_card_mono)
  next
    case False
    then have "?ids - insert (id_node node) visited = ?ids - visited"
      by auto
    then show ?thesis
      using False by simp
  qed
  then show "((depNode, allNodes, insert (id_node node) visited), node, allNodes, visited)
          \<in> measure (\<lambda>(node, allNodes, visited).
               card (id_node ` set (traverseNodes allNodes) - visited)
               + (if id_node node \<in> id_node ` set (traverseNodes allNodes) then 0 else 1))"
    using dep by simp
qed

text \<open>
  The callback of the second traversal of \<open>validateDependencies\<close>; \<open>allNodeIds\<close> is the
  set of ids collected by the first traversal.
\<close>

definition validateDependencies_node ::
    "HTANode list \<Rightarrow> ustring set \<Rightarrow> HTANode \<Rightarrow> ValidationIssue list" where
  "validateDependencies_node nodes allNodeIds node =
     (if length (dependencies node) > 0 then
        concat (map (\<lambda>depId.
          if depId \<notin> allNodeIds then
            [\<lparr> type_issue = Error, code = ''INVALID_DEPENDENCY'',
               message = [Lit ''Node \"'', Str (title node),
                          Lit ''\" has dependency on non-existent node \"'', Str depId, Lit ''\"''],
               nodeId = Some (id_node node), severity = High, autoFixable = True \<rparr>]
          else []) (dependencies node))
        @ (if hasCircularDependency node nodes {} then
             [\<lparr> type_issue = Error, code = ''CIRCULAR_DEPENDENCY'',
                message = [Lit ''Node \"'', Str (title node), Lit ''\" has circular dependency''],
                nodeId = Some (id_node node), severity = High, autoFixable = False \<rparr>]
           else [])
      else [])"

definition validateDependencies :: "HTANode list \<Rightarrow> ValidationIssue list" where
  "validateDependencies nodes =
     (let allNodeIds = set (map id_node (traverseNodes nodes)) in
      concat (map (validateDependencies_node nodes allNodeIds) (traverseNodes nodes)))"

subsection \<open>Estimate pass\<close>

definition validateEstimates_node :: "HTANode \<Rightarrow> ValidationIssue list" where
  "validateEstimates_node node =
     (case hours node of
        Some h \<Rightarrow>
          (if js_lt h (Num 0) then
             [\<lparr> type_issue = Error, code = ''NEGATIVE_ESTIMATE'',
                message = [Lit ''Node \"'', Str (title node), Lit ''\" has negative time estimate''],
                nodeId = Some (id_node node), severity = Medium, autoFixable = True \<rparr>]
           else [])
          @ (if js_lt (Num 1000) h then
               [\<lparr> type_issue = Warning, code = ''LARGE_ESTIMATE'',
                  message = [Lit ''Node \"'', Str (title node),
                             Lit ''\" has very large time estimate ('', Val h,
                             Lit '' hours). Consider breaking down.''],
                  nodeId = Some (id_node node), severity = Medium, autoFixable = False \<rparr>]
             else [])
          @ (if type_node node \<in> set (map js [''task'', ''subtask'']) \<and> children node = [] then
               (if h = Num 0 then
                  [\<lparr> type_issue = Warning, code = ''ZERO_ESTIMATE'',
                     message = [Str (type_node node), Lit '' \"'', Str (title node),
                                Lit ''\" has zero time estimate''],
                     nodeId = Some (id_node node), severity = Medium, autoFixable = False \<rparr>]
                else [])
               @ (if js_lt (Num 40) h then
                    [\<lparr> type_issue = Warning, code = ''LONG_TASK'',
                       message = [Str (type_node node), Lit '' \"'', Str (title node),
                                  Lit ''\" has estimate > 40 hours. Consider breaking down.''],
                       nodeId = Some (id_node node), severity = Medium, autoFixable = False \<rparr>]
                  else [])
             else [])
      | None \<Rightarrow>
          (if type_node node \<in> set (map js [''task'', ''subtask'']) then
             [\<lparr> type_issue = Warning, code = ''MISSING_ESTIMATE'',
                message = [Str (type_node node), Lit '' \"'', Str (title node),
                           Lit ''\" is missing time estimate''],
                nodeId = Some (id_node node), severity = Medium, autoFixable = False \<rparr>]
           else []))"

definition validateEstimates :: "HTANode list \<Rightarrow> ValidationIssue list" where
  "validateEstimates nodes = concat (map validateEstimates_node (traverseNodes nodes))"

subsection \<open>Completeness pass\<close>


definition hasPositiveEstimate :: "HTANode \<Rightarrow> bool" where
  "hasPositiveEstimate node =
     (case hours node of None \<Rightarrow> False | Some h \<Rightarrow> js_lt (Num 0) h)"

definition hasDescription :: "HTANode \<Rightarrow> bool" where
  "hasDescription node = (\<not> blank (description node))"

definition nodesWithEstimates :: "HTANode list \<Rightarrow> nat" where
  "nodesWithEstimates nodes = length (filter hasPositiveEstimate (traverseNodes nodes))"

definition nodesWithDescriptions :: "HTANode list \<Rightarrow> nat" where
  "nodesWithDescriptions nodes = length (filter hasDescription (traverseNodes nodes))"

definition estimateCompleteness :: "HTANode list \<Rightarrow> number" where
  "estimateCompleteness nodes =
     js_div (Num (of_nat (nodesWithEstimates nodes))) (Num (of_nat (countNodes nodes)))"

definition descriptionCompleteness :: "HTANode list \<Rightarrow> number" where
  "descriptionCompleteness nodes =
     js_div (Num (of_nat (nodesWithDescriptions nodes))) (Num (of_nat (countNodes nodes)))"

text \<open>The literal \<open>0.7\<close> is the double nearest to 7/10; \<open>0.5\<close> is exact.\<close>

definition validateCompleteness :: "HTANode list \<Rightarrow> ValidationIssue list" where
  "validateCompleteness nodes =
     (if js_lt (estimateCompleteness nodes) (dbl (7 / 10)) then
        [\<lparr> type_issue = Warning, code = ''INCOMPLETE_ESTIMATES'',
           message = [Lit ''Only '', Val (js_round (js_mul (estimateCompleteness nodes) (Num 100))),
                      Lit ''% of nodes have time estimates''],
           nodeId = None, severity = Medium, autoFixable = False \<rparr>]
      else [])
     @ (if js_lt (descriptionCompleteness nodes) (Num (1 / 2)) then
          [\<lparr> type_issue = Warning, code = ''INCOMPLETE_DESCRIPTIONS'',
             message = [Lit ''Only '',
                        Val (js_round (js_mul (descriptionCompleteness nodes) (Num 100))),
                        Lit ''% of nodes have descriptions''],
             nodeId = None, severity = Low, autoFixable = False \<rparr>]
        else [])"

subsection \<open>Feasibility pass\<close>

text \<open>
  \<open>calculateTotalEstimate\<close>: the callback adds \<open>node.estimatedHours\<close> to \<open>total\<close> when it is
  truthy (present, not 0, not \<open>NaN\<close>) and the node has no children.
\<close>

definition calculateTotalEstimate :: "HTANode list \<Rightarrow> number" where
  "calculateTotalEstimate nodes =
     foldl (\<lambda>total node.
              if truthy (hours node) \<and> children node = []
              then js_add total (orZero (hours node)) else total)
           (Num 0) (traverseNodes nodes)"

definition validateFeasibility_node :: "HTANode \<Rightarrow> ValidationIssue list" where
  "validateFeasibility_node node =
     (if length (children node) > 0 then
        (let childEstimates = map (\<lambda>child. orZero (hours child))
                                (filter (\<lambda>child. truthy (hours child)) (children node));
             totalChildEstimate = foldl (\<lambda>sum est. js_add sum est) (Num 0) childEstimates;
             nodeEstimate = orZero (hours node) in
         if js_lt (Num 0) nodeEstimate
            \<and> js_lt (js_mul nodeEstimate (Num 3)) totalChildEstimate then
           [\<lparr> type_issue = Warning, code = ''UNREALISTIC_BREAKDOWN'',
              message = [Lit ''Node \"'', Str (title node), Lit ''\" estimate ('',
                         Val nodeEstimate, Lit ''h) is much less than sum of children ('',
                         Val totalChildEstimate, Lit ''h)''],
              nodeId = Some (id_node node), severity = Medium, autoFixable = False \<rparr>]
         else [])
      else [])"

definition validateFeasibility :: "HTANode list \<Rightarrow> ValidationIssue list" where
  "validateFeasibility nodes =
     (let totalEstimate = calculateTotalEstimate nodes in
      (if js_lt (Num 2000) totalEstimate then
         [\<lparr> type_issue = Warning, code = ''LARGE_PROJECT'',
            message = [Lit ''Total project estimate is '', Val totalEstimate,
                       Lit '' hours ('',
                       Val (js_div (js_round (js_mul (js_div totalEstimate (Num 2000))
                                                      (Num 100)))
                                   (Num 100)),
                       Lit '' person-years). Consider phase approach.''],
            nodeId = None, severity = Medium, autoFixable = False \<rparr>]
       else [])
      @ concat (map validateFeasibility_node (traverseNodes nodes)))"

subsection \<open>Metrics\<close>

text \<open>
  \<open>calculateMaxDepth(nodes, currentDepth)\<close> and \<open>calculateMaxBreadth(nodes)\<close>: each is a
  \<open>forEach\<close> loop that updates a running maximum (the last argument of the \<open>_forEach\<close>
  function), started at \<open>currentDepth\<close> and at \<open>nodes.length\<close>.
\<close>

function calculateMaxDepth :: "HTANode list \<Rightarrow> nat \<Rightarrow> nat"
  and calculateMaxDepth_forEach :: "HTANode list \<Rightarrow> nat \<Rightarrow> nat \<Rightarrow> nat" where
  "calculateMaxDepth nodes currentDepth = calculateMaxDepth_forEach nodes currentDepth currentDepth"
| "calculateMaxDepth_forEach [] currentDepth maxDepth = maxDepth"
| "calculateMaxDepth_forEach (node # nodes) currentDepth maxDepth =
     calculateMaxDepth_forEach nodes currentDepth
       (if length (children node) > 0
        then max maxDepth (calculateMaxDepth (children node) (currentDepth + 1))
        else maxDepth)"
  by pat_completeness auto
termination
proof (relation "measure (\<lambda>x. case x of
          Inl (nodes, currentDepth) \<Rightarrow> Suc (2 * size_list size nodes)
        | Inr (nodes, currentDepth, maxDepth) \<Rightarrow> 2 * size_list size nodes)")
  fix node :: HTANode and nodes :: "HTANode list" and currentDepth maxDepth :: nat
  show "(Inl (children node, currentDepth + 1), Inr (node # nodes, currentDepth, maxDepth))
          \<in> measure (\<lambda>x. case x of
               Inl (nodes, currentDepth) \<Rightarrow> Suc (2 * size_list size nodes)
             | Inr (nodes, currentDepth, maxDepth) \<Rightarrow> 2 * size_list size nodes)"
    by (cases node) simp
qed simp_all

function calculateMaxBreadth :: "HTANode list \<Rightarrow> nat"
  and calculateMaxBreadth_forEach :: "HTANode list \<Rightarrow> nat \<Rightarrow> nat" where
  "calculateMaxBreadth nodes = calculateMaxBreadth_forEach nodes (length nodes)"
| "calculateMaxBreadth_forEach [] maxBreadth = maxBreadth"
| "calculateMaxBreadth_forEach (node # nodes) maxBreadth =
     calculateMaxBreadth_forEach nodes
       (if length (children node) > 0
        then max maxBreadth (calculateMaxBreadth (children node))
        else maxBreadth)"
  by pat_completeness auto
termination
proof (relation "measure (\<lambda>x. case x of
          Inl nodes \<Rightarrow> Suc (2 * size_list size nodes)
        | Inr (nodes, maxBreadth) \<Rightarrow> 2 * size_list size nodes)")
  fix node :: HTANode and nodes :: "HTANode list" and maxBreadth :: nat
  show "(Inl (children node), Inr (node # nodes, maxBreadth))
          \<in> measure (\<lambda>x. case x of
               Inl nodes \<Rightarrow> Suc (2 * size_list size nodes)
             | Inr (nodes, maxBreadth) \<Rightarrow> 2 * size_list size nodes)"
    by (cases node) simp
qed simp_all

text \<open>
  \<open>countNodesWithProperty(nodes, property)\<close> counts the nodes whose property is neither
  \<open>undefined\<close> nor \<open>null\<close> nor the empty string. The service calls it with the two keys
  below. A number is never the empty string (the comparison is strict), so every present
  \<open>estimatedHours\<close> counts, 0 included.
\<close>

datatype property = EstimatedHours | Description

fun hasProperty :: "property \<Rightarrow> HTANode \<Rightarrow> bool" where
  "hasProperty EstimatedHours node = (hours node \<noteq> None)"
| "hasProperty Description node = (description node \<noteq> None \<and> description node \<noteq> Some [])"

definition countNodesWithProperty :: "HTANode list \<Rightarrow> property \<Rightarrow> nat" where
  "countNodesWithProperty nodes prop =
     foldl (\<lambda>count node. if hasProperty prop node then count + 1 else count)
           0 (traverseNodes nodes)"

definition calculateMetrics :: "HTANode list \<Rightarrow> Metrics" where
  "calculateMetrics nodes =
     (let depth' = calculateMaxDepth nodes 0;
          breadth' = calculateMaxBreadth nodes;
          complexity' = min 100 (depth' * 10 + breadth' * 5);
          totalNodes = countNodes nodes;
          nodesWithEstimates' = countNodesWithProperty nodes EstimatedHours;
          nodesWithDescriptions' = countNodesWithProperty nodes Description;
          completeness' =
            js_round (js_mul (js_div (Num (of_nat (nodesWithEstimates' + nodesWithDescriptions')))
                                     (Num (of_nat (totalNodes * 2))))
                             (Num 100));
          totalEstimate = calculateTotalEstimate nodes;
          feasibility' = (if js_lt (Num 0) totalEstimate \<and> js_lt totalEstimate (Num 2000)
                          then js_min (Num 100)
                                 (js_sub (Num 100) (js_div totalEstimate (Num 50)))
                          else Num 50)
      in \<lparr> depth = depth', breadth = breadth', complexity = complexity',
           completeness = completeness', feasibility = js_round feasibility' \<rparr>)"

subsection \<open>Scoring and suggestions\<close>

text \<open>The body of the \<open>forEach\<close> loop of \<open>calculateScore\<close>: the \<open>switch\<close> on the severity.\<close>

definition deduct :: "number \<Rightarrow> ValidationIssue \<Rightarrow> number" where
  "deduct score' issue =
     (case severity issue of
        High \<Rightarrow> js_sub score' (if type_issue issue = Error then Num 15 else Num 8)
      | Medium \<Rightarrow> js_sub score' (if type_issue issue = Error then Num 10 else Num 5)
      | Low \<Rightarrow> js_sub score' (if type_issue issue = Error then Num 5 else Num 2))"

definition calculateScore :: "ValidationIssue list \<Rightarrow> Metrics \<Rightarrow> number" where
  "calculateScore issues' metrics' =
     (let score1 = foldl deduct (Num 100) issues';
          score2 = js_round (js_div (js_add (js_add score1 (completeness metrics'))
                                            (feasibility metrics'))
                                    (Num 3))
      in js_max (Num 0) (js_min (Num 100) score2))"

definition generateSuggestions :: "ValidationIssue list \<Rightarrow> Metrics \<Rightarrow> template list" where
  "generateSuggestions issues' metrics' =
     (let errorCount = length (filter (\<lambda>i. type_issue i = Error) issues');
          warningCount = length (filter (\<lambda>i. type_issue i = Warning) issues');
          suggestions' =
            (if errorCount > 0 then
               [[Lit ''Fix '', Val (Num (of_nat errorCount)), Lit '' critical error'',
                 Lit (if errorCount > 1 then ''s'' else []), Lit '' before proceeding'']]
             else [])
            @ (if warningCount > 5 then
                 [[Lit ''Consider addressing multiple warnings to improve structure quality'']]
               else [])
            @ (if depth metrics' > 5 then
                 [[Lit ''Consider flattening the hierarchy to improve manageability'']]
               else [])
            @ (if breadth metrics' > 8 then
                 [[Lit ''Group related tasks to reduce cognitive load'']]
               else [])
            @ (if js_lt (completeness metrics') (Num 70) then
                 [[Lit ''Add more time estimates and descriptions for better planning'']]
               else [])
            @ (if js_lt (feasibility metrics') (Num 60) then
                 [[Lit ''Consider breaking the project into phases or reducing scope'']]
               else [])
      in if suggestions' = [] then
           [[Lit ''Structure looks good! Consider reviewing estimates and dependencies.'']]
         else suggestions')"

subsection \<open>\<open>validateHTA\<close>\<close>

text \<open>
  The only state outside its argument that \<open>validateHTA\<close> touches is the logger, to which
  it writes one entry. The logger is modelled by the list of the entries written so far,
  passed in and returned. An exception is a value of type \<open>JsError\<close>; the one that
  occurs here is the \<open>TypeError\<close> of reading a property of \<open>null\<close> or of calling
  something that is not a function.
\<close>

datatype JsError = TypeError

datatype LogEntry =
    DebugCompleted bool nat nat number
  | ErrorFailed JsError

text \<open>The six passes in the order of the calls: the contents of \<open>issues\<close> after them.\<close>

definition runPasses :: "HTANode list \<Rightarrow> ValidationIssue list" where
  "runPasses structure =
     validateHierarchy structure 0 []
     @ validateNodeProperties structure
     @ validateDependencies structure
     @ validateEstimates structure
     @ validateCompleteness structure
     @ validateFeasibility structure"

text \<open>
  The \<open>try\<close> block of \<open>validateHTA\<close> (lines 436-462) on a forest of well-typed nodes,
  given the metrics computed before it: the passes, the score, the suggestions, the result
  record and the debug entry of the logger.
\<close>

definition tryBlock ::
    "HTANode list \<Rightarrow> Metrics \<Rightarrow> LogEntry list \<Rightarrow> HTAValidationResult \<times> LogEntry list" where
  "tryBlock structure metrics' logger =
     (let issues' = runPasses structure;
          score' = calculateScore issues' metrics';
          suggestions' = generateSuggestions issues' metrics';
          result = \<lparr> isValid = (length (filter (\<lambda>i. type_issue i = Error) issues') = 0),
                     issues = issues', suggestions = suggestions', score = score',
                     metrics = metrics' \<rparr>
      in (result,
          logger @ [DebugCompleted (isValid result)
                      (length (filter (\<lambda>i. type_issue i = Error) issues'))
                      (length (filter (\<lambda>i. type_issue i = Warning) issues'))
                      score']))"

text \<open>
  \<open>validateHTA(structure)\<close> on a forest of well-typed nodes. No statement of
  \<open>calculateMetrics\<close> or of the \<open>try\<close> block throws on such a forest, so the function
  returns through the \<open>try\<close> block.
\<close>

definition validateHTA ::
    "HTANode list \<Rightarrow> LogEntry list \<Rightarrow> HTAValidationResult \<times> LogEntry list" where
  "validateHTA structure logger = tryBlock structure (calculateMetrics structure) logger"

subsection \<open>\<open>validateHTA\<close> on malformed input\<close>

text \<open>
  The types of TypeScript are not checked at run time, and the controller passes on any
  array it receives. Two defects of such an array are modelled here:
  \<^item> a slot of a node array, at any depth, holds \<open>null\<close> instead of a node (\<open>RawNull\<close>);
  \<^item> the \<open>dependencies\<close> of a node are a string instead of an array of strings
    (\<open>DepString\<close>).
  Every other field is as in \<open>HTANode\<close>.
\<close>

datatype RawDependencies = DepArray "ustring list" | DepString ustring

datatype RawNode =
    RawNull
  | RawNode ustring ustring ustring "ustring option" ustring "rat option" RawDependencies
      "RawNode list"

text \<open>
  \<open>calculateMaxDepth\<close> on such a forest. The callback of the loop reads \<open>node.children\<close>,
  which throws a \<open>TypeError\<close> when the slot is \<open>null\<close>; an exception ends the loop and
  the callers up to the one that catches it.
\<close>

fun calculateMaxDepth_raw :: "RawNode list \<Rightarrow> nat \<Rightarrow> JsError + nat"
  and calculateMaxDepth_forEach_raw :: "RawNode list \<Rightarrow> nat \<Rightarrow> nat \<Rightarrow> JsError + nat" where
  "calculateMaxDepth_raw nodes currentDepth =
     calculateMaxDepth_forEach_raw nodes currentDepth currentDepth"
| "calculateMaxDepth_forEach_raw [] currentDepth maxDepth = Inr maxDepth"
| "calculateMaxDepth_forEach_raw (RawNull # nodes) currentDepth maxDepth = Inl TypeError"
| "calculateMaxDepth_forEach_raw (RawNode i t ti d p e deps cs # nodes) currentDepth maxDepth =
     (if length cs > 0 then
        (case calculateMaxDepth_raw cs (currentDepth + 1) of
           Inl error \<Rightarrow> Inl error
         | Inr childDepth \<Rightarrow>
             calculateMaxDepth_forEach_raw nodes currentDepth (max maxDepth childDepth))
      else calculateMaxDepth_forEach_raw nodes currentDepth maxDepth)"

text \<open>
  The well-typed forest that the service sees when no slot is \<open>null\<close> and every
  \<open>dependencies\<close> that is a string is the empty string. The empty string is falsy, and
  both places that read \<open>dependencies\<close> (\<open>validateDependencies\<close> and
  \<open>hasCircularDependency\<close>) test it for truthiness first, so it behaves as the empty
  array. (On other forests \<open>typed\<close> is not used: it skips a \<open>null\<close> slot and reads every
  string as the empty array.)
\<close>

fun typed :: "RawNode list \<Rightarrow> HTANode list" where
  "typed [] = []"
| "typed (RawNull # nodes) = typed nodes"
| "typed (RawNode i t ti d p e deps cs # nodes) =
     HTANode i t ti d p e (case deps of DepArray ds \<Rightarrow> ds | DepString s \<Rightarrow> []) (typed cs)
     # typed nodes"

text \<open>
  \<open>calculateMetrics\<close> on such a forest. Its first statement is the call of
  \<open>calculateMaxDepth\<close>, which reads every slot; when that call returns, no slot is
  \<open>null\<close>, and the remaining statements, none of which reads \<open>dependencies\<close>, run as on
  the well-typed forest.
\<close>

definition calculateMetrics_raw :: "RawNode list \<Rightarrow> JsError + Metrics" where
  "calculateMetrics_raw nodes =
     (case calculateMaxDepth_raw nodes 0 of
        Inl error \<Rightarrow> Inl error
      | Inr depth' \<Rightarrow> Inr (calculateMetrics (typed nodes)))"

text \<open>
  Some node of the forest has a non-empty string as its \<open>dependencies\<close>. The second
  traversal of \<open>validateDependencies\<close> reaches every node; on such a node the test
  \<open>node.dependencies && node.dependencies.length > 0\<close> succeeds and
  \<open>node.dependencies.forEach\<close>, which a string does not have, throws a \<open>TypeError\<close>.
\<close>

fun hasStringDependencies :: "RawNode list \<Rightarrow> bool" where
  "hasStringDependencies [] = False"
| "hasStringDependencies (RawNull # nodes) = hasStringDependencies nodes"
| "hasStringDependencies (RawNode i t ti d p e deps cs # nodes) =
     ((case deps of DepArray ds \<Rightarrow> False | DepString s \<Rightarrow> s \<noteq> [])
      \<or> hasStringDependencies cs \<or> hasStringDependencies nodes)"

text \<open>
  The \<open>try\<close> block on a forest without \<open>null\<close> slot: it throws when the dependency pass
  meets a string, and runs as on the well-typed forest otherwise.
\<close>

definition tryBlock_raw ::
    "RawNode list \<Rightarrow> Metrics \<Rightarrow> LogEntry list
       \<Rightarrow> JsError + HTAValidationResult \<times> LogEntry list" where
  "tryBlock_raw structure metrics' logger =
     (if hasStringDependencies structure then Inl TypeError
      else Inr (tryBlock (typed structure) metrics' logger))"

text \<open>The value returned by the \<open>catch\<close> block (lines 468-486).\<close>

definition degradedResult :: HTAValidationResult where
  "degradedResult =
     \<lparr> isValid = False,
       issues = [\<lparr> type_issue = Error, code = ''VALIDATION_ERROR'',
                   message = [Lit ''Validation process failed''],
                   nodeId = None, severity = High, autoFixable = False \<rparr>],
       suggestions = [[Lit ''Please review the structure and try again'']],
       score = Num 0,
       metrics = \<lparr> depth = 0, breadth = 0, complexity = 0,
                   completeness = Num 0, feasibility = Num 0 \<rparr> \<rparr>"

text \<open>
  \<open>validateHTA\<close> as written: \<open>calculateMetrics\<close> is called at line 433, before the \<open>try\<close>
  statement, so an exception it throws leaves \<open>validateHTA\<close> (\<open>Inl\<close>); an exception of
  the \<open>try\<close> block is caught, logged, and answered by the degraded result.
\<close>

definition validateHTA_raw ::
    "RawNode list \<Rightarrow> LogEntry list \<Rightarrow> JsError + HTAValidationResult \<times> LogEntry list" where
  "validateHTA_raw structure logger =
     (case calculateMetrics_raw structure of
        Inl error \<Rightarrow> Inl error
      | Inr metrics' \<Rightarrow>
          Inr (case tryBlock_raw structure metrics' logger of
                 Inr returned \<Rightarrow> returned
               | Inl error \<Rightarrow> (degradedResult, logger @ [ErrorFailed error])))"

text \<open>Some slot of the forest, at any depth, is \<open>null\<close>.\<close>

fun hasNull :: "RawNode list \<Rightarrow> bool" where
  "hasNull [] = False"
| "hasNull (RawNull # nodes) = True"
| "hasNull (RawNode i t ti d p e deps cs # nodes) = (hasNull cs \<or> hasNull nodes)"

section \<open>Notions of the specification\<close>


text \<open>
  A forest with valid ranks only: the type of every node is one of the five known ranks.
  A forest with strictly increasing ranks: the rank index of every child is strictly
  greater than the rank index of its parent.
\<close>

definition validRanks :: "HTANode list \<Rightarrow> bool" where
  "validRanks nodes = list_all (\<lambda>node. type_node node \<in> set typeHierarchy) (traverseNodes nodes)"

definition increasingRanks :: "HTANode list \<Rightarrow> bool" where
  "increasingRanks nodes =
     list_all (\<lambda>node. list_all (\<lambda>child. indexOf typeHierarchy (type_node node)
                                               < indexOf typeHierarchy (type_node child))
                                  (children node))
              (traverseNodes nodes)"

text \<open>A score within the range of the specification: a number from 0 to 100.\<close>

definition inScoreRange :: "number \<Rightarrow> bool" where
  "inScoreRange x = (case x of Num r \<Rightarrow> 0 \<le> r \<and> r \<le> 100 | _ \<Rightarrow> False)"

text \<open>
  The penalty of an issue as the specification words it, keyed by severity and kind:
  error/high 15, warning/high 8, error/medium 10, warning/medium 5, error/low 5,
  warning/low 2, and nothing for a suggestion.
\<close>

fun penalty_spec :: "Severity \<Rightarrow> IssueType \<Rightarrow> int" where
  "penalty_spec _ Suggestion = 0"
| "penalty_spec High Error = 15"
| "penalty_spec High Warning = 8"
| "penalty_spec Medium Error = 10"
| "penalty_spec Medium Warning = 5"
| "penalty_spec Low Error = 5"
| "penalty_spec Low Warning = 2"

text \<open>
  The score as the specification words it, from the issues and the two metrics it
  blends: start at 100, subtract the penalty of every issue, set the score to
  \<open>round((score + completeness + feasibility) / 3)\<close>, and clamp it to the range from 0 to
  100.
\<close>

definition score_spec :: "ValidationIssue list \<Rightarrow> rat \<Rightarrow> rat \<Rightarrow> rat" where
  "score_spec issues' completeness' feasibility' =
     max 0 (min 100 (of_int (round_half_up
       ((of_int (100 - sum_list (map (\<lambda>i. penalty_spec (severity i) (type_issue i)) issues'))
         + completeness' + feasibility') / 3))))"

text \<open>
  A walk along dependency edges: each node of the list has a dependency id that
  \<open>findNodeById\<close> resolves to the next node of the list.
\<close>

fun depChain :: "HTANode list \<Rightarrow> HTANode list \<Rightarrow> bool" where
  "depChain allNodes [] = True"
| "depChain allNodes [node] = True"
| "depChain allNodes (node # next # rest) =
     ((\<exists>depId \<in> set (dependencies node). findNodeById allNodes depId = Some next)
      \<and> depChain allNodes (next # rest))"

section \<open>Properties\<close>

subsection \<open>Rounding to a double\<close>

lemma frac_bounds:
  fixes p q A B :: rat
  assumes "0 < p" "0 < B" "B \<le> q" "p < A"
  shows "p / q < A / B"
proof -
  have "p / q \<le> p / B"
    using assms by (intro divide_left_mono) (auto simp: mult_pos_pos)
  also have "\<dots> < A / B"
    using assms by (intro divide_strict_right_mono) auto
  finally show ?thesis .
qed

lemma frac_bounds_le:
  fixes p q A B :: rat
  assumes "0 < A" "0 < q" "q < B" "A \<le> p"
  shows "A / B \<le> p / q"
proof -
  have "A / B \<le> A / q"
    using assms by (intro divide_left_mono) (auto simp: mult_pos_pos)
  also have "\<dots> \<le> p / q"
    using assms by (intro divide_right_mono) auto
  finally show ?thesis .
qed

lemma binade_bounds:
  assumes "x \<noteq> 0"
  shows "2 powi binade x \<le> \<bar>x\<bar> \<and> \<bar>x\<bar> < 2 powi (binade x + 1)"
proof -
  obtain p q where pq: "quotient_of \<bar>x\<bar> = (p, q)"
    by (cases "quotient_of \<bar>x\<bar>")
  have q: "0 < q"
    using pq by (rule quotient_of_denom_pos)
  have x: "\<bar>x\<bar> = of_int p / of_int q"
    using pq by (rule quotient_of_div)
  have p: "0 < p"
  proof -
    have "0 < \<bar>x\<bar>" using assms by simp
    then have "0 < (of_int p :: rat) / of_int q" using x by simp
    then show ?thesis using q by (simp add: zero_less_divide_iff)
  qed
  let ?a = "bitlen p" and ?b = "bitlen q"
  have a: "1 \<le> ?a" and b: "1 \<le> ?b"
    using p q by (simp_all add: bitlen_alt_def)
  have "2 ^ nat (?a - 1) \<le> p" "p < 2 ^ nat ?a"
    using bitlen_bounds [OF p] by simp_all
  then have "(of_int (2 ^ nat (?a - 1)) :: rat) \<le> of_int p" "(of_int p :: rat) < of_int (2 ^ nat ?a)"
    by (simp_all only: of_int_le_iff of_int_less_iff)
  then have pb: "(2::rat) powi (?a - 1) \<le> of_int p" "(of_int p :: rat) < 2 powi ?a"
    using a by (simp_all add: power_int_nonneg_exp)
  have "2 ^ nat (?b - 1) \<le> q" "q < 2 ^ nat ?b"
    using bitlen_bounds [OF q] by simp_all
  then have "(of_int (2 ^ nat (?b - 1)) :: rat) \<le> of_int q" "(of_int q :: rat) < of_int (2 ^ nat ?b)"
    by (simp_all only: of_int_le_iff of_int_less_iff)
  then have qb: "(2::rat) powi (?b - 1) \<le> of_int q" "(of_int q :: rat) < 2 powi ?b"
    using b by (simp_all add: power_int_nonneg_exp)
  have "\<bar>x\<bar> < 2 powi ?a / 2 powi (?b - 1)"
    unfolding x using p q pb qb by (intro frac_bounds) simp_all
  also have "\<dots> = 2 powi (?a - (?b - 1))"
    by (simp add: power_int_diff)
  finally have upper: "\<bar>x\<bar> < 2 powi (?a - ?b + 1)"
    by (simp add: algebra_simps)
  have "2 powi (?a - 1) / 2 powi ?b \<le> \<bar>x\<bar>"
    unfolding x using p q pb qb by (intro frac_bounds_le) simp_all
  moreover have "(2::rat) powi (?a - 1) / 2 powi ?b = 2 powi (?a - 1 - ?b)"
    by (simp add: power_int_diff)
  ultimately have lower: "2 powi (?a - ?b - 1) \<le> \<bar>x\<bar>"
    by (simp add: algebra_simps)
  have e: "binade x = (if 2 powi (?a - ?b) \<le> \<bar>x\<bar> then ?a - ?b else ?a - ?b - 1)"
    by (simp add: binade_def pq Let_def)
  show ?thesis
  proof (cases "2 powi (?a - ?b) \<le> \<bar>x\<bar>")
    case True
    then show ?thesis using e upper by simp
  next
    case False
    then show ?thesis using e lower by simp
  qed
qed

lemma binade_unique:
  assumes "2 powi e \<le> \<bar>x\<bar>" and "\<bar>x\<bar> < 2 powi (e + 1)"
  shows "binade x = e"
proof -
  have pos: "(0::rat) < 2 powi e"
    by simp
  have nz: "x \<noteq> 0"
  proof
    assume "x = 0"
    then have "2 powi e \<le> (0::rat)"
      using assms(1) by simp
    with pos show False
      by linarith
  qed
  have b: "2 powi binade x \<le> \<bar>x\<bar>" "\<bar>x\<bar> < 2 powi (binade x + 1)"
    using binade_bounds [OF nz] by simp_all
  have "(2::rat) powi e < 2 powi (binade x + 1)"
    using assms(1) b(2) by simp
  then have "e < binade x + 1"
    by (metis linorder_not_less power_int_increasing one_le_numeral)
  moreover have "(2::rat) powi binade x < 2 powi (e + 1)"
    using assms(2) b(1) by simp
  then have "binade x < e + 1"
    by (metis linorder_not_less power_int_increasing one_le_numeral)
  ultimately show ?thesis by simp
qed

lemma roundTiesToEven_nearest:
  assumes "\<bar>y - of_int n\<bar> < 1 / 2"
  shows "roundTiesToEven y = n"
proof -
  consider "\<lfloor>y\<rfloor> = n" | "\<lfloor>y\<rfloor> = n - 1"
    using assms by (cases "of_int n \<le> y") (auto simp: floor_eq_iff abs_if split: if_splits)
  then show ?thesis
  proof cases
    case 1
    then show ?thesis
      using assms by (auto simp: roundTiesToEven_def Let_def abs_if split: if_splits)
  next
    case 2
    then show ?thesis
      using assms by (auto simp: roundTiesToEven_def Let_def abs_if split: if_splits)
  qed
qed

lemma roundTiesToEven_of_int [simp]: "roundTiesToEven (of_int n) = n"
  by (rule roundTiesToEven_nearest) simp

text \<open>
  An evaluation rule: the double nearest to \<open>x\<close>, from its binade \<open>e\<close> and the integer
  \<open>n\<close> nearest to \<open>x / 2^(e - 52)\<close>, when \<open>x\<close> is not half-way between two doubles.
\<close>

lemma dbl_eqI:
  assumes "2 powi e \<le> \<bar>x\<bar>" and "\<bar>x\<bar> < 2 powi (e + 1)"
    and "- 1022 \<le> e" and "e \<le> 1023"
    and "\<bar>x / 2 powi (e - 52) - of_int n\<bar> < 1 / 2"
    and "r = of_int n * 2 powi (e - 52)"
    and "\<bar>r\<bar> < 2 powi 1024"
  shows "dbl x = Num r"
proof -
  have pos: "(0::rat) < 2 powi e"
    by simp
  have nz: "x \<noteq> 0"
  proof
    assume "x = 0"
    then have "2 powi e \<le> (0::rat)"
      using assms(1) by simp
    with pos show False
      by linarith
  qed
  have b: "binade x = e"
    using assms(1,2) by (rule binade_unique)
  have m: "max e (- 1022) = e"
    using assms(3) by simp
  have rd: "roundTiesToEven (x / 2 powi (e - 52)) = n"
    using assms(5) by (rule roundTiesToEven_nearest)
  show ?thesis
    using nz assms(6,7) by (simp add: dbl_def b m rd Let_def abs_if split: if_splits)
qed

lemma dbl_zero [simp]: "dbl 0 = Num 0"
  by (simp add: dbl_def)

lemma dbl_not_NaN [simp]: "dbl x \<noteq> NaN"
  by (simp add: dbl_def Let_def)

lemma dbl_of_int:
  assumes "\<bar>k\<bar> < 2 ^ 53"
  shows "dbl (of_int k) = Num (of_int k)"
proof (cases "k = 0")
  case True
  then show ?thesis by simp
next
  case False
  let ?x = "of_int k :: rat"
  let ?e = "binade ?x"
  have nz: "?x \<noteq> 0"
    using False by simp
  have b: "2 powi ?e \<le> \<bar>?x\<bar>" "\<bar>?x\<bar> < 2 powi (?e + 1)"
    using binade_bounds [OF nz] by simp_all
  have "\<bar>?x\<bar> < 2 powi 53"
  proof -
    have "(of_int \<bar>k\<bar> :: rat) < of_int (2 ^ 53)"
      using assms by (simp only: of_int_less_iff)
    then show ?thesis by simp
  qed
  then have "(2::rat) powi ?e < 2 powi 53"
    using b(1) by linarith
  then have hi: "?e < 53"
    by (metis linorder_not_less power_int_increasing one_le_numeral)
  have "1 \<le> \<bar>?x\<bar>"
  proof -
    have "1 \<le> \<bar>k\<bar>" using False by simp
    then have "(of_int 1 :: rat) \<le> of_int \<bar>k\<bar>"
      by (simp only: of_int_le_iff)
    then show ?thesis by simp
  qed
  then have "(2::rat) powi 0 < 2 powi (?e + 1)"
    using b(2) by simp
  then have lo: "0 \<le> ?e"
    by (metis linorder_not_less power_int_increasing one_le_numeral zle_add1_eq_le zless_add1_eq less_le)
  have m: "max ?e (- 1022) = ?e"
    using lo by simp
  define j where "j = nat (52 - ?e)"
  have q: "(2::rat) powi (?e - 52) = 1 / 2 ^ j"
  proof -
    have "?e - 52 = - int j"
      using hi by (simp add: j_def)
    then show ?thesis
      by (simp add: power_int_minus divide_inverse)
  qed
  have quot: "?x / 2 powi (?e - 52) = of_int (k * 2 ^ j)"
    by (simp add: q)
  have rd: "roundTiesToEven (?x / 2 powi (?e - 52)) = k * 2 ^ j"
    unfolding quot by (rule roundTiesToEven_of_int)
  have restored: "of_int (k * 2 ^ j) * (2::rat) powi (?e - 52) = ?x"
    by (simp add: q)
  have small: "\<bar>?x\<bar> < 2 powi 1024"
  proof -
    have "(2::rat) powi 53 \<le> 2 powi 1024"
      by (intro power_int_increasing) simp_all
    then show ?thesis
      using \<open>\<bar>?x\<bar> < 2 powi 53\<close> by linarith
  qed
  show ?thesis
    using nz small by (simp add: dbl_def m rd restored Let_def abs_if del: of_int_mult split: if_splits)
qed

lemma dbl_numeral [simp]:
  "numeral n < (2::int) ^ 53 \<Longrightarrow> dbl (numeral n) = Num (numeral n)"
  using dbl_of_int [of "numeral n"] by simp

lemma dbl_neg_numeral [simp]:
  "numeral n < (2::int) ^ 53 \<Longrightarrow> dbl (- numeral n) = Num (- numeral n)"
  using dbl_of_int [of "- numeral n"] by simp

lemma dbl_one [simp]: "dbl 1 = Num 1"
  using dbl_of_int [of 1] by simp

lemma dbl_of_nat: "n < 2 ^ 53 \<Longrightarrow> dbl (of_nat n) = Num (of_nat n)"
  using dbl_of_int [of "int n"] by (simp add: nat_less_iff flip: of_nat_power)

subsection \<open>A double is its own rounding\<close>


lemma powi_less_imp_less: "(2::rat) powi a < 2 powi b \<Longrightarrow> a < b"
  by (metis linorder_not_less power_int_increasing one_le_numeral)








subsection \<open>Strings\<close>

lemma js_eq_iff [simp]: "js s = js t \<longleftrightarrow> s = t"
proof -
  have "inj (of_char :: char \<Rightarrow> nat)"
    by (rule injI) simp
  then have "inj (map (of_char :: char \<Rightarrow> nat))"
    by simp
  then show ?thesis
    unfolding js_def by (simp add: inj_eq)
qed

lemma js_Nil [simp]: "js [] = []"
  by (simp add: js_def)

lemma js_eq_Nil_iff [simp]: "js s = [] \<longleftrightarrow> s = []"
  by (simp add: js_def)

lemma length_js [simp]: "length (js s) = length s"
  by (simp add: js_def)

subsection \<open>Rounding to an integer\<close>

lemma round_half_up_eq_iff:
  "round_half_up x = k \<longleftrightarrow> of_int k \<le> x + 1 / 2 \<and> x + 1 / 2 < of_int k + 1"
  by (simp add: round_half_up_def floor_eq_iff)

lemma round_half_up_of_int [simp]: "round_half_up (of_int k) = k"
  by (simp add: round_half_up_eq_iff)

lemma round_half_up_numeral [simp]: "round_half_up (numeral n) = numeral n"
  using round_half_up_of_int [of "numeral n"] by simp

lemma round_half_up_zero [simp]: "round_half_up 0 = 0"
  using round_half_up_of_int [of 0] by simp

subsection \<open>Feasibility metric\<close>






subsection \<open>The two notions of "has an estimate"\<close>

lemma foldl_count:
  "foldl (\<lambda>count x. if P x then count + 1 else count) (acc :: nat) xs
     = acc + length (filter P xs)"
  by (induction xs arbitrary: acc) simp_all

lemma countNodesWithProperty_filter:
  "countNodesWithProperty nodes prop = length (filter (hasProperty prop) (traverseNodes nodes))"
  by (simp add: countNodesWithProperty_def foldl_count)

lemma countNodes_length: "countNodes nodes = length (traverseNodes nodes)"
  by (induction nodes rule: countNodes.induct) simp_all

lemma length_filter_mono:
  assumes "\<And>x. x \<in> set xs \<Longrightarrow> P x \<Longrightarrow> Q x"
  shows "length (filter P xs) \<le> length (filter Q xs)"
  using assms by (induction xs) auto

lemma length_filter_strict:
  assumes sub: "\<And>x. x \<in> set xs \<Longrightarrow> P x \<Longrightarrow> Q x"
    and mem: "y \<in> set xs" and q: "Q y" and p: "\<not> P y"
  shows "length (filter P xs) < length (filter Q xs)"
  using sub mem
proof (induction xs)
  case Nil
  then show ?case by simp
next
  case (Cons x xs)
  have le: "length (filter P xs) \<le> length (filter Q xs)"
    using Cons.prems(1) by (intro length_filter_mono) simp_all
  show ?case
  proof (cases "y = x")
    case True
    then show ?thesis
      using le p q by simp
  next
    case False
    then have "y \<in> set xs"
      using Cons.prems(2) by simp
    then have "length (filter P xs) < length (filter Q xs)"
      using Cons.IH Cons.prems(1) by simp
    then show ?thesis
      using Cons.prems(1) [of x] by auto
  qed
qed

lemma dbl_seven_tenths: "dbl (7 / 10) = Num (3152519739159347 / 4503599627370496)"
  by (rule dbl_eqI [where e = "- 1" and n = 6305039478318694]) simp_all

text \<open>
  Claim C10. In a forest with a node whose \<open>estimatedHours\<close> is present and equal to 0:
  \<^item> the completeness metric of \<open>calculateMetrics\<close>, hence of the result of \<open>validateHTA\<close>,
    is \<open>Math.round\<close> of 100 times the quotient of the number of nodes with an estimate
    that is present plus the number of nodes with a description that is present and
    not the empty string, by twice the number of nodes;
  \<^item> \<open>validateCompleteness\<close> issues the \<open>INCOMPLETE_ESTIMATES\<close> warning exactly when the
    quotient of the number of nodes with a strictly positive estimate by the number of
    nodes is less than 0.7;
  \<^item> the node is counted in the first number of nodes with an estimate and not in the
    second, and the second number is strictly less than the first.
\<close>

theorem zero_estimate_counts_differ:
  assumes "node \<in> set (traverseNodes nodes)" and "estimatedHours node = Some 0"
  shows "completeness (metrics (fst (validateHTA nodes logger)))
           = completeness (calculateMetrics nodes)
         \<and> completeness (calculateMetrics nodes)
           = js_round (js_mul (js_div
               (Num (of_nat (length (filter (\<lambda>n. hours n \<noteq> None) (traverseNodes nodes))
                             + length (filter (\<lambda>n. description n \<noteq> None
                                                    \<and> description n \<noteq> Some [])
                                         (traverseNodes nodes)))))
               (Num (of_nat (length (traverseNodes nodes) * 2)))) (Num 100))
         \<and> ((\<exists>i \<in> set (validateCompleteness nodes). code i = ''INCOMPLETE_ESTIMATES'')
            \<longleftrightarrow> js_lt (js_div
                 (Num (of_nat (length (filter (\<lambda>n. case hours n of None \<Rightarrow> False
                                                     | Some h \<Rightarrow> js_lt (Num 0) h)
                                        (traverseNodes nodes)))))
                 (Num (of_nat (length (traverseNodes nodes)))))
               (dbl (7 / 10)))
         \<and> hours node \<noteq> None
         \<and> \<not> (case hours node of None \<Rightarrow> False | Some h \<Rightarrow> js_lt (Num 0) h)
         \<and> length (filter (\<lambda>n. case hours n of None \<Rightarrow> False | Some h \<Rightarrow> js_lt (Num 0) h)
                     (traverseNodes nodes))
           < length (filter (\<lambda>n. hours n \<noteq> None) (traverseNodes nodes))"
proof -
  let ?present = "\<lambda>n. hours n \<noteq> None"
  let ?positive = "\<lambda>n. case hours n of None \<Rightarrow> False | Some h \<Rightarrow> js_lt (Num 0) h"
  have result: "completeness (metrics (fst (validateHTA nodes logger)))
                  = completeness (calculateMetrics nodes)"
    by (simp add: validateHTA_def tryBlock_def Let_def)
  have p1: "hasProperty EstimatedHours = ?present"
    and p2: "hasProperty Description = (\<lambda>n. description n \<noteq> None \<and> description n \<noteq> Some [])"
    and p3: "hasPositiveEstimate = ?positive"
    by (simp_all add: fun_eq_iff hasPositiveEstimate_def)
  have metric: "completeness (calculateMetrics nodes)
           = js_round (js_mul (js_div
               (Num (of_nat (length (filter ?present (traverseNodes nodes))
                             + length (filter (\<lambda>n. description n \<noteq> None
                                                    \<and> description n \<noteq> Some [])
                                         (traverseNodes nodes)))))
               (Num (of_nat (length (traverseNodes nodes) * 2)))) (Num 100))"
    by (simp add: calculateMetrics_def Let_def countNodesWithProperty_filter countNodes_length
        p1 p2 del: js_div.simps js_mul.simps js_round.simps of_nat_add of_nat_mult)
  have warning: "(\<exists>i \<in> set (validateCompleteness nodes). code i = ''INCOMPLETE_ESTIMATES'')
            \<longleftrightarrow> js_lt (js_div
                 (Num (of_nat (length (filter ?positive (traverseNodes nodes)))))
                 (Num (of_nat (length (traverseNodes nodes)))))
               (dbl (7 / 10))"
    by (auto simp add: validateCompleteness_def estimateCompleteness_def nodesWithEstimates_def
        countNodes_length p3 simp del: js_div.simps js_lt.simps)
  have counted: "?present node" and not_counted: "\<not> ?positive node"
    using assms(2) by (simp_all add: hours_def)
  have sub: "?positive n \<Longrightarrow> ?present n" for n
    by (simp split: option.splits)
  have "length (filter ?positive (traverseNodes nodes))
          < length (filter ?present (traverseNodes nodes))"
    using sub assms(1) counted not_counted by (rule length_filter_strict)
  then show ?thesis
    using result metric warning counted not_counted by blast
qed

text \<open>
  An instance: a single described objective with an estimate of 0 hours. The metric
  counts its estimate (completeness 100), the completeness pass does not (the ratio is 0
  and the warning is issued).
\<close>

theorem zero_estimate_counts_differ_witness:
  "length (filter (\<lambda>n. case hours n of None \<Rightarrow> False | Some h \<Rightarrow> js_lt (Num 0) h)
     (traverseNodes
       [HTANode (js ''o1'') (js ''objective'') (js ''Launch'') (Some (js ''Go live''))
          (js ''high'') (Some 0) [] []])) = 0
   \<and> length (filter (\<lambda>n. hours n \<noteq> None)
     (traverseNodes
       [HTANode (js ''o1'') (js ''objective'') (js ''Launch'') (Some (js ''Go live''))
          (js ''high'') (Some 0) [] []])) = 1
   \<and> completeness (metrics (fst (validateHTA
       [HTANode (js ''o1'') (js ''objective'') (js ''Launch'') (Some (js ''Go live''))
          (js ''high'') (Some 0) [] []] []))) = Num 100
   \<and> (\<exists>i \<in> set (validateCompleteness
       [HTANode (js ''o1'') (js ''objective'') (js ''Launch'') (Some (js ''Go live''))
          (js ''high'') (Some 0) [] []]). code i = ''INCOMPLETE_ESTIMATES'')"
proof -
  let ?n = "HTANode (js ''o1'') (js ''objective'') (js ''Launch'') (Some (js ''Go live''))
              (js ''high'') (Some 0) [] []"
  have mem: "?n \<in> set (traverseNodes [?n])" and zero: "estimatedHours ?n = Some 0"
    by simp_all
  note fact = zero_estimate_counts_differ [OF mem zero, of "[]"]
  have present: "length (filter (\<lambda>n. hours n \<noteq> None) (traverseNodes [?n])) = 1"
    by (simp add: hours_def)
  have positive: "length (filter (\<lambda>n. case hours n of None \<Rightarrow> False
                                        | Some h \<Rightarrow> js_lt (Num 0) h) (traverseNodes [?n])) = 0"
    using fact present by simp
  have described: "length (filter (\<lambda>n. description n \<noteq> None \<and> description n \<noteq> Some [])
                     (traverseNodes [?n])) = 1"
    by simp
  have "completeness (calculateMetrics [?n]) = Num 100"
    using fact by (simp only: present described) simp
  then have metric: "completeness (metrics (fst (validateHTA [?n] []))) = Num 100"
    using fact by simp
  have "js_lt (js_div (Num (of_nat 0)) (Num (of_nat (length (traverseNodes [?n])))))
          (dbl (7 / 10))"
    by (simp add: dbl_seven_tenths)
  then have "\<exists>i \<in> set (validateCompleteness [?n]). code i = ''INCOMPLETE_ESTIMATES''"
    using fact by (simp only: positive)
  then show ?thesis
    using present positive metric by simp
qed

subsection \<open>Hierarchy pass\<close>

lemma indexOf_ge: "- 1 \<le> indexOf xs x"
  by (induction xs) (simp_all add: Let_def)

lemma indexOf_minus1_iff: "indexOf xs x = - 1 \<longleftrightarrow> x \<notin> set xs"
proof (induction xs)
  case Nil
  show ?case by simp
next
  case (Cons y ys)
  show ?case
    using Cons.IH indexOf_ge [of ys x] by (auto simp: Let_def)
qed

lemma validateNodeTypeHierarchy_empty:
  assumes known: "type_node node \<in> set typeHierarchy"
    and greater: "list_all (\<lambda>child. indexOf typeHierarchy (type_node node)
                                       < indexOf typeHierarchy (type_node child)) (children node)"
  shows "validateNodeTypeHierarchy node = []"
proof -
  have "indexOf typeHierarchy (type_node node) \<noteq> - 1"
    using known by (simp add: indexOf_minus1_iff)
  moreover have "\<not> indexOf typeHierarchy (type_node child)
                     \<le> indexOf typeHierarchy (type_node node)"
    if "child \<in> set (children node)" for child
    using greater that by (auto simp: list_all_iff)
  ultimately show ?thesis
    by (simp add: validateNodeTypeHierarchy_def Let_def)
qed

lemma validateHierarchy_codes:
  "list_all (\<lambda>node. validateNodeTypeHierarchy node = []) (traverseNodes nodes)
     \<Longrightarrow> list_all (\<lambda>i. code i = ''EXCESSIVE_DEPTH'' \<or> code i = ''TOO_MANY_CHILDREN'')
           (validateHierarchy nodes depth' path)"
  "list_all (\<lambda>node. validateNodeTypeHierarchy node = []) (traverseNodes nodes)
     \<Longrightarrow> list_all (\<lambda>i. code i = ''EXCESSIVE_DEPTH'' \<or> code i = ''TOO_MANY_CHILDREN'')
           (validateHierarchy_forEach nodes index depth' path)"
proof (induction nodes depth' path and nodes index depth' path
    rule: validateHierarchy_validateHierarchy_forEach.induct)
  case (1 nodes depth' path)
  then show ?case by simp
next
  case (2 index depth' path)
  show ?case by simp
next
  case (3 node nodes index depth' path)
  then show ?case by (simp add: Let_def)
qed

text \<open>
  Claim C6. On a forest in which every node's type is one of the five known ranks and
  every child's rank index is strictly greater than its parent's, the hierarchy pass
  emits no \<open>INVALID_HIERARCHY\<close> issue and no \<open>INVALID_NODE_TYPE\<close> issue.
\<close>

theorem validateHierarchy_no_rank_issue:
  assumes "validRanks nodes" and "increasingRanks nodes"
  shows "filter (\<lambda>i. code i = ''INVALID_HIERARCHY'' \<or> code i = ''INVALID_NODE_TYPE'')
           (validateHierarchy nodes 0 []) = []"
proof -
  have "list_all (\<lambda>node. validateNodeTypeHierarchy node = []) (traverseNodes nodes)"
    using assms validateNodeTypeHierarchy_empty
    by (auto simp: validRanks_def increasingRanks_def list_all_iff)
  then have "list_all (\<lambda>i. code i = ''EXCESSIVE_DEPTH'' \<or> code i = ''TOO_MANY_CHILDREN'')
               (validateHierarchy nodes 0 [])"
    by (rule validateHierarchy_codes(1))
  then show ?thesis
    by (auto simp: filter_empty_conv list_all_iff)
qed

text \<open>
  An instance: an objective over a strategy over two tasks, one of them with a subtask.
\<close>

theorem validateHierarchy_no_rank_issue_witness:
  "validRanks
     [HTANode (js ''o1'') (js ''objective'') (js ''Launch'') None (js ''high'') None []
        [HTANode (js ''s1'') (js ''strategy'') (js ''Build'') None (js ''high'') None []
           [HTANode (js ''t1'') (js ''task'') (js ''Code'') None (js ''low'') (Some 8) []
              [HTANode (js ''u1'') (js ''subtask'') (js ''Parser'') None (js ''low'') (Some 4) [] []],
            HTANode (js ''t2'') (js ''task'') (js ''Test'') None (js ''low'') (Some 8) [] []]]]
   \<and> increasingRanks
     [HTANode (js ''o1'') (js ''objective'') (js ''Launch'') None (js ''high'') None []
        [HTANode (js ''s1'') (js ''strategy'') (js ''Build'') None (js ''high'') None []
           [HTANode (js ''t1'') (js ''task'') (js ''Code'') None (js ''low'') (Some 8) []
              [HTANode (js ''u1'') (js ''subtask'') (js ''Parser'') None (js ''low'') (Some 4) [] []],
            HTANode (js ''t2'') (js ''task'') (js ''Test'') None (js ''low'') (Some 8) [] []]]]
   \<and> filter (\<lambda>i. code i = ''INVALID_HIERARCHY'' \<or> code i = ''INVALID_NODE_TYPE'')
       (validateHierarchy
         [HTANode (js ''o1'') (js ''objective'') (js ''Launch'') None (js ''high'') None []
            [HTANode (js ''s1'') (js ''strategy'') (js ''Build'') None (js ''high'') None []
               [HTANode (js ''t1'') (js ''task'') (js ''Code'') None (js ''low'') (Some 8) []
                  [HTANode (js ''u1'') (js ''subtask'') (js ''Parser'') None (js ''low'') (Some 4) [] []],
                HTANode (js ''t2'') (js ''task'') (js ''Test'') None (js ''low'') (Some 8) [] []]]] 0 []) = []"
proof -
  let ?f = "[HTANode (js ''o1'') (js ''objective'') (js ''Launch'') None (js ''high'') None []
        [HTANode (js ''s1'') (js ''strategy'') (js ''Build'') None (js ''high'') None []
           [HTANode (js ''t1'') (js ''task'') (js ''Code'') None (js ''low'') (Some 8) []
              [HTANode (js ''u1'') (js ''subtask'') (js ''Parser'') None (js ''low'') (Some 4) [] []],
            HTANode (js ''t2'') (js ''task'') (js ''Test'') None (js ''low'') (Some 8) [] []]]]"
  have v: "validRanks ?f"
    by (simp add: validRanks_def typeHierarchy_def)
  have i: "increasingRanks ?f"
    by (simp add: increasingRanks_def typeHierarchy_def)
  show ?thesis
    using v i validateHierarchy_no_rank_issue [OF v i] by simp
qed

subsection \<open>Dependency pass\<close>

text \<open>The issue pushed for the dependency \<open>depId\<close> of \<open>node\<close> when no node has that id.\<close>

lemma invalid_dependency_node:
  assumes "depId \<in> set (dependencies node)" and "depId \<notin> allNodeIds"
  shows "\<lparr> type_issue = Error, code = ''INVALID_DEPENDENCY'',
           message = [Lit ''Node \"'', Str (title node),
                      Lit ''\" has dependency on non-existent node \"'', Str depId, Lit ''\"''],
           nodeId = Some (id_node node), severity = High, autoFixable = True \<rparr>
         \<in> set (validateDependencies_node nodes allNodeIds node)"
proof -
  have "dependencies node \<noteq> []"
    using assms(1) by auto
  then show ?thesis
    using assms by (auto simp: validateDependencies_node_def)
qed

text \<open>
  Claim C7. For every forest and every node of it, each dependency id that is the id of
  no node anywhere in the forest produces an \<open>INVALID_DEPENDENCY\<close> issue of type
  \<open>error\<close>, with \<open>autoFixable = true\<close>, attached to the depending node (and naming the
  missing id in its message). The issue is pushed by the dependency pass and is part of
  the result of \<open>validateHTA\<close>.
\<close>

theorem dangling_dependency_reported:
  assumes "node \<in> set (traverseNodes nodes)"
    and "depId \<in> set (dependencies node)"
    and "depId \<notin> set (map id_node (traverseNodes nodes))"
  shows "\<lparr> type_issue = Error, code = ''INVALID_DEPENDENCY'',
           message = [Lit ''Node \"'', Str (title node),
                      Lit ''\" has dependency on non-existent node \"'', Str depId, Lit ''\"''],
           nodeId = Some (id_node node), severity = High, autoFixable = True \<rparr>
         \<in> set (validateDependencies nodes)
       \<and> \<lparr> type_issue = Error, code = ''INVALID_DEPENDENCY'',
           message = [Lit ''Node \"'', Str (title node),
                      Lit ''\" has dependency on non-existent node \"'', Str depId, Lit ''\"''],
           nodeId = Some (id_node node), severity = High, autoFixable = True \<rparr>
         \<in> set (issues (fst (validateHTA nodes logger)))"
proof -
  let ?issue = "\<lparr> type_issue = Error, code = ''INVALID_DEPENDENCY'',
           message = [Lit ''Node \"'', Str (title node),
                      Lit ''\" has dependency on non-existent node \"'', Str depId, Lit ''\"''],
           nodeId = Some (id_node node), severity = High, autoFixable = True \<rparr>"
  have "?issue \<in> set (validateDependencies_node nodes
                          (set (map id_node (traverseNodes nodes))) node)"
    using assms(2,3) by (rule invalid_dependency_node)
  then have pass: "?issue \<in> set (validateDependencies nodes)"
    using assms(1) by (auto simp: validateDependencies_def Let_def)
  then have "?issue \<in> set (issues (fst (validateHTA nodes logger)))"
    by (simp add: validateHTA_def tryBlock_def Let_def runPasses_def)
  with pass show ?thesis
    by simp
qed

text \<open>
  An instance: the second of two tasks depends on the first, which exists, and on
  \<open>t9\<close>, which does not.
\<close>

theorem dangling_dependency_reported_witness:
  "\<lparr> type_issue = Error, code = ''INVALID_DEPENDENCY'',
      message = [Lit ''Node \"'', Str (js ''Test the parser''),
                 Lit ''\" has dependency on non-existent node \"'', Str (js ''t9''), Lit ''\"''],
      nodeId = Some (js ''t2''), severity = High, autoFixable = True \<rparr>
    \<in> set (validateDependencies
        [HTANode (js ''t1'') (js ''task'') (js ''Write the parser'') None (js ''low'') (Some 8) [] [],
         HTANode (js ''t2'') (js ''task'') (js ''Test the parser'') None (js ''low'') (Some 8) [js ''t1'', js ''t9''] []])"
proof -
  let ?t2 = "HTANode (js ''t2'') (js ''task'') (js ''Test the parser'') None (js ''low'') (Some 8) [js ''t1'', js ''t9''] []"
  let ?f = "[HTANode (js ''t1'') (js ''task'') (js ''Write the parser'') None (js ''low'') (Some 8) [] [], ?t2]"
  have a: "?t2 \<in> set (traverseNodes ?f)"
    by simp
  have b: "js ''t9'' \<in> set (dependencies ?t2)"
    by simp
  have c: "js ''t9'' \<notin> set (map id_node (traverseNodes ?f))"
    by simp
  show ?thesis
    using dangling_dependency_reported [OF a b c, of "[]"] by simp
qed

subsection \<open>Scoring\<close>

lemma list_all_if:
  "list_all P (if c then xs else ys) = (if c then list_all P xs else list_all P ys)"
  by simp

lemma list_all_concat_map:
  "(\<And>x. list_all P (f x)) \<Longrightarrow> list_all P (concat (map f xs))"
  by (induction xs) simp_all

lemma validateNodeTypeHierarchy_types:
  "list_all (\<lambda>i. type_issue i \<noteq> Suggestion) (validateNodeTypeHierarchy node)"
  unfolding validateNodeTypeHierarchy_def Let_def list_all_if
  by (simp add: list_all_concat_map)

lemma validateHierarchy_types:
  "list_all (\<lambda>i. type_issue i \<noteq> Suggestion) (validateHierarchy nodes depth' path)"
  "list_all (\<lambda>i. type_issue i \<noteq> Suggestion) (validateHierarchy_forEach nodes index depth' path)"
proof (induction nodes depth' path and nodes index depth' path
    rule: validateHierarchy_validateHierarchy_forEach.induct)
  case (1 nodes depth' path)
  then show ?case by simp
next
  case (2 index depth' path)
  show ?case by simp
next
  case (3 node nodes index depth' path)
  then show ?case by (simp add: Let_def validateNodeTypeHierarchy_types)
qed

lemma validateNodeProperties_types:
  "list_all (\<lambda>i. type_issue i \<noteq> Suggestion) (validateNodeProperties nodes)"
  unfolding validateNodeProperties_def
  by (rule list_all_concat_map) (simp add: validateNodeProperties_node_def list_all_if)

lemma validateDependencies_node_types:
  "list_all (\<lambda>i. type_issue i \<noteq> Suggestion) (validateDependencies_node nodes ids node)"
  unfolding validateDependencies_node_def list_all_if list_all_append
  by (simp add: list_all_concat_map list_all_if del: hasCircularDependency.simps
     )

lemma validateDependencies_types:
  "list_all (\<lambda>i. type_issue i \<noteq> Suggestion) (validateDependencies nodes)"
  unfolding validateDependencies_def Let_def
  by (rule list_all_concat_map) (rule validateDependencies_node_types)

lemma validateEstimates_types:
  "list_all (\<lambda>i. type_issue i \<noteq> Suggestion) (validateEstimates nodes)"
  unfolding validateEstimates_def
  by (rule list_all_concat_map)
    (simp add: validateEstimates_node_def list_all_if split: option.split)

lemma validateCompleteness_types:
  "list_all (\<lambda>i. type_issue i \<noteq> Suggestion) (validateCompleteness nodes)"
  by (simp add: validateCompleteness_def)

lemma validateFeasibility_types:
  "list_all (\<lambda>i. type_issue i \<noteq> Suggestion) (validateFeasibility nodes)"
  unfolding validateFeasibility_def Let_def list_all_append
  by (simp add: list_all_concat_map validateFeasibility_node_def Let_def list_all_if
     )

lemma runPasses_types: "list_all (\<lambda>i. type_issue i \<noteq> Suggestion) (runPasses structure)"
  by (simp add: runPasses_def validateHierarchy_types validateNodeProperties_types
      validateDependencies_types validateEstimates_types validateCompleteness_types
      validateFeasibility_types)

lemma runPasses_Nil: "runPasses [] = []"
  by (simp add: runPasses_def validateNodeProperties_def validateDependencies_def
      validateEstimates_def validateCompleteness_def validateFeasibility_def
      estimateCompleteness_def descriptionCompleteness_def nodesWithEstimates_def
      nodesWithDescriptions_def calculateTotalEstimate_def)

text \<open>
  Claim C5 (the score starts at 100, loses per issue the penalty keyed by severity and
  kind, a suggestion costing nothing, is blended with the two metrics and clamped to the
  range from 0 to 100) fails in \<open>calculateScore\<close> on two points.
  \<^item> A suggestion is charged like a warning: 8, 5 or 2 points by severity. For one
    suggestion of high severity with completeness and feasibility 100, the specification
    gives 100 and \<open>calculateScore\<close> gives 97. No pass pushes a suggestion (lemma
    \<open>runPasses_types\<close>), so this input does not come from \<open>validateHTA\<close>.
  \<^item> The result is not clamped when it is not a number: on the issues and the metrics of
    the empty forest, which is how \<open>validateHTA\<close> calls it, \<open>calculateScore\<close> returns
    \<open>NaN\<close>.
\<close>

theorem calculateScore_diverges:
  "calculateScore
     [\<lparr> type_issue = Suggestion, code = ''NOTE'', message = [], nodeId = None,
        severity = High, autoFixable = False \<rparr>]
     \<lparr> depth = 0, breadth = 1, complexity = 5, completeness = Num 100, feasibility = Num 100 \<rparr>
     = Num 97
   \<and> score_spec
     [\<lparr> type_issue = Suggestion, code = ''NOTE'', message = [], nodeId = None,
        severity = High, autoFixable = False \<rparr>] 100 100 = 100
   \<and> deduct (Num 100) \<lparr> type_issue = Suggestion, code = ''NOTE'', message = [], nodeId = None,
        severity = High, autoFixable = False \<rparr> = Num 92
   \<and> deduct (Num 100) \<lparr> type_issue = Suggestion, code = ''NOTE'', message = [], nodeId = None,
        severity = Medium, autoFixable = False \<rparr> = Num 95
   \<and> deduct (Num 100) \<lparr> type_issue = Suggestion, code = ''NOTE'', message = [], nodeId = None,
        severity = Low, autoFixable = False \<rparr> = Num 98
   \<and> runPasses [] = []
   \<and> calculateScore (runPasses []) (calculateMetrics []) = NaN
   \<and> \<not> inScoreRange (calculateScore (runPasses []) (calculateMetrics []))"
proof -
  have third: "dbl (292 / 3) = Num (6849224433292629 / 70368744177664)"
    by (rule dbl_eqI [where e = 6 and n = 6849224433292629]) simp_all
  have rounded: "round_half_up (6849224433292629 / 70368744177664) = 97"
    by (simp add: round_half_up_eq_iff)
  have code: "calculateScore
     [\<lparr> type_issue = Suggestion, code = ''NOTE'', message = [], nodeId = None,
        severity = High, autoFixable = False \<rparr>]
     \<lparr> depth = 0, breadth = 1, complexity = 5, completeness = Num 100, feasibility = Num 100 \<rparr>
     = Num 97"
    by (simp add: calculateScore_def deduct_def js_sub_def third rounded)
  have spec: "score_spec
     [\<lparr> type_issue = Suggestion, code = ''NOTE'', message = [], nodeId = None,
        severity = High, autoFixable = False \<rparr>] 100 100 = 100"
    by (simp add: score_spec_def)
  have charged: "deduct (Num 100) \<lparr> type_issue = Suggestion, code = ''NOTE'', message = [],
        nodeId = None, severity = High, autoFixable = False \<rparr> = Num 92"
    "deduct (Num 100) \<lparr> type_issue = Suggestion, code = ''NOTE'', message = [],
        nodeId = None, severity = Medium, autoFixable = False \<rparr> = Num 95"
    "deduct (Num 100) \<lparr> type_issue = Suggestion, code = ''NOTE'', message = [],
        nodeId = None, severity = Low, autoFixable = False \<rparr> = Num 98"
    by (simp_all add: deduct_def js_sub_def)
  have passes: "runPasses [] = []"
    by (rule runPasses_Nil)
  have nan: "calculateScore [] (calculateMetrics []) = NaN"
    by (simp add: calculateScore_def calculateMetrics_def Let_def countNodesWithProperty_def
        calculateTotalEstimate_def)
  show ?thesis
    using code spec charged by (simp add: passes nan inScoreRange_def)
qed

subsection \<open>Range of the score\<close>

text \<open>
  Claim C3 (the score of every forest, the empty forest included, is a number from 0 to
  100) fails on the empty forest: with no node, completeness is \<open>Math.round(0 / 0 * 100)\<close>,
  which is \<open>NaN\<close>, the blend is \<open>NaN\<close>, and \<open>Math.max(0, Math.min(100, NaN))\<close> is
  \<open>NaN\<close>. The score of the empty forest is \<open>NaN\<close>, which is not in the range.
\<close>

theorem validateHTA_empty_forest_score:
  "score (fst (validateHTA [] logger)) = NaN
   \<and> completeness (metrics (fst (validateHTA [] logger))) = NaN
   \<and> \<not> inScoreRange (score (fst (validateHTA [] logger)))"
  by (simp add: validateHTA_def tryBlock_def Let_def calculateScore_def calculateMetrics_def
      countNodesWithProperty_def calculateTotalEstimate_def inScoreRange_def runPasses_Nil)

subsection \<open>Cycle detection\<close>

lemma findNodeById_mem: "findNodeById ns i = Some n \<Longrightarrow> n \<in> set (traverseNodes ns)"
  by (induction ns i rule: findNodeById.induct) (auto split: if_splits option.splits)

lemma findNodeById_id: "findNodeById ns i = Some n \<Longrightarrow> id_node n = i"
  by (induction ns i rule: findNodeById.induct) (auto split: if_splits option.splits)

text \<open>When the ids of a forest are pairwise distinct, the id of a node resolves to it.\<close>

lemma findNodeById_distinct:
  "distinct (map id_node (traverseNodes ns)) \<Longrightarrow> n \<in> set (traverseNodes ns)
     \<Longrightarrow> findNodeById ns (id_node n) = Some n"
proof (induction ns "id_node n" rule: findNodeById.induct)
  case 1
  then show ?case by simp
next
  case (2 node nodes)
  show ?case
  proof (cases "id_node node = id_node n")
    case True
    have "n = node"
    proof (rule ccontr)
      assume "n \<noteq> node"
      then have "n \<in> set (traverseNodes (children node) @ traverseNodes nodes)"
        using "2.prems"(2) by simp
      then have "id_node n \<in> id_node ` set (traverseNodes (children node) @ traverseNodes nodes)"
        by (rule imageI)
      then show False
        using "2.prems"(1) True by auto
    qed
    then show ?thesis by simp
  next
    case False
    have dc: "distinct (map id_node (traverseNodes (children node)))"
      and dn: "distinct (map id_node (traverseNodes nodes))"
      and disj: "id_node ` set (traverseNodes (children node))
                   \<inter> id_node ` set (traverseNodes nodes) = {}"
      using "2.prems"(1) by simp_all
    show ?thesis
    proof (cases "n \<in> set (traverseNodes (children node))")
      case True
      then have "findNodeById (children node) (id_node n) = Some n"
        using "2.hyps"(1) [OF False dc] by simp
      then show ?thesis
        using False by simp
    next
      case not_child: False
      then have in_rest: "n \<in> set (traverseNodes nodes)"
        using "2.prems"(2) False by auto
      have "findNodeById (children node) (id_node n) = None"
      proof (rule ccontr)
        assume "findNodeById (children node) (id_node n) \<noteq> None"
        then obtain m where m: "findNodeById (children node) (id_node n) = Some m"
          by auto
        have "id_node m \<in> id_node ` set (traverseNodes (children node))"
          using findNodeById_mem [OF m] by (rule imageI)
        moreover have "id_node m = id_node n"
          using findNodeById_id [OF m] .
        moreover have "id_node n \<in> id_node ` set (traverseNodes nodes)"
          using in_rest by (rule imageI)
        ultimately show False
          using disj by auto
      qed
      then show ?thesis
        using False "2.hyps"(2) [OF False _ dn in_rest] by simp
    qed
  qed
qed

text \<open>Two nodes whose ids resolve to them and that depend on each other.\<close>

lemma mutual_hasCircularDependency:
  assumes fa: "findNodeById nodes (id_node a) = Some a"
    and fb: "findNodeById nodes (id_node b) = Some b"
    and ab: "id_node b \<in> set (dependencies a)"
    and ba: "id_node a \<in> set (dependencies b)"
  shows "hasCircularDependency a nodes {}"
proof -
  have again: "hasCircularDependency a nodes (insert (id_node b) {id_node a})"
    by (subst hasCircularDependency.simps) simp
  have "hasCircularDependency b nodes (insert (id_node a) {})"
  proof (subst hasCircularDependency.simps, clarsimp simp del: hasCircularDependency.simps)
    assume "id_node b \<noteq> id_node a"
    show "list_ex (\<lambda>depId. case findNodeById nodes depId of None \<Rightarrow> False
              | Some depNode \<Rightarrow> hasCircularDependency depNode nodes {id_node b, id_node a})
            (dependencies b)"
      unfolding list_ex_iff using ba fa again by (intro bexI [of _ "id_node a"]) simp_all
  qed
  then show ?thesis
    using ab fb
    by (subst hasCircularDependency.simps)
      (auto simp: list_ex_iff simp del: hasCircularDependency.simps intro!: bexI [of _ "id_node b"])
qed

lemma circular_issue_pushed:
  assumes "node \<in> set (traverseNodes nodes)" and "dependencies node \<noteq> []"
    and "hasCircularDependency node nodes {}"
  shows "\<lparr> type_issue = Error, code = ''CIRCULAR_DEPENDENCY'',
           message = [Lit ''Node \"'', Str (title node), Lit ''\" has circular dependency''],
           nodeId = Some (id_node node), severity = High, autoFixable = False \<rparr>
         \<in> set (validateDependencies nodes)"
proof -
  have "\<lparr> type_issue = Error, code = ''CIRCULAR_DEPENDENCY'',
           message = [Lit ''Node \"'', Str (title node), Lit ''\" has circular dependency''],
           nodeId = Some (id_node node), severity = High, autoFixable = False \<rparr>
         \<in> set (validateDependencies_node nodes (set (map id_node (traverseNodes nodes))) node)"
    using assms(2,3) by (simp add: validateDependencies_node_def del: hasCircularDependency.simps)
  then show ?thesis
    using assms(1) by (auto simp: validateDependencies_def Let_def simp del: hasCircularDependency.simps)
qed

text \<open>
  The walk of \<open>hasCircularDependency\<close>: it reports a cycle exactly when some walk along
  dependency edges, started at the node, ends on a node whose id is already on the path
  (in \<open>visited\<close> or the id of an earlier node of the walk).
\<close>

lemma hasCircularDependency_walk:
  "hasCircularDependency node allNodes visited
     \<longleftrightarrow> (\<exists>path. depChain allNodes (node # path)
           \<and> id_node (last (node # path)) \<in> visited \<union> id_node ` set (butlast (node # path)))"
proof
  show "hasCircularDependency node allNodes visited
     \<Longrightarrow> \<exists>path. depChain allNodes (node # path)
           \<and> id_node (last (node # path)) \<in> visited \<union> id_node ` set (butlast (node # path))"
  proof (induction node allNodes visited rule: hasCircularDependency.induct)
    case (1 node allNodes visited)
    show ?case
    proof (cases "id_node node \<in> visited")
      case True
      then have "depChain allNodes (node # [])
           \<and> id_node (last (node # [])) \<in> visited \<union> id_node ` set (butlast (node # []))"
        by simp
      then show ?thesis by blast
    next
      case False
      then obtain depId depNode where d: "depId \<in> set (dependencies node)"
        and f: "findNodeById allNodes depId = Some depNode"
        and h: "hasCircularDependency depNode allNodes (insert (id_node node) visited)"
        using "1.prems"
        by (subst (asm) hasCircularDependency.simps)
          (auto simp: list_ex_iff simp del: hasCircularDependency.simps split: option.splits)
      obtain path where p: "depChain allNodes (depNode # path)"
        and l: "id_node (last (depNode # path))
                  \<in> insert (id_node node) visited \<union> id_node ` set (butlast (depNode # path))"
        using "1.IH" [OF False d f h] by blast
      have "depChain allNodes (node # depNode # path)"
        using d f p by auto
      moreover have "id_node (last (node # depNode # path))
                  \<in> visited \<union> id_node ` set (butlast (node # depNode # path))"
        using l by auto
      ultimately show ?thesis by blast
    qed
  qed
next
  assume "\<exists>path. depChain allNodes (node # path)
           \<and> id_node (last (node # path)) \<in> visited \<union> id_node ` set (butlast (node # path))"
  then obtain path where "depChain allNodes (node # path)"
    and "id_node (last (node # path)) \<in> visited \<union> id_node ` set (butlast (node # path))"
    by blast
  then show "hasCircularDependency node allNodes visited"
  proof (induction path arbitrary: node visited)
    case Nil
    then show ?case
      by (subst hasCircularDependency.simps) simp
  next
    case (Cons nxt rest)
    obtain depId where d: "depId \<in> set (dependencies node)"
      and f: "findNodeById allNodes depId = Some nxt"
      and c: "depChain allNodes (nxt # rest)"
      using Cons.prems(1) by auto
    have "id_node (last (nxt # rest))
            \<in> insert (id_node node) visited \<union> id_node ` set (butlast (nxt # rest))"
      using Cons.prems(2) by auto
    then have "hasCircularDependency nxt allNodes (insert (id_node node) visited)"
      using Cons.IH [OF c] by simp
    then show ?case
      using d f
      by (subst hasCircularDependency.simps)
        (auto simp: list_ex_iff simp del: hasCircularDependency.simps intro!: bexI [of _ depId])
  qed
qed

text \<open>
  Claim C8, as amended. Let A and B be two nodes of a forest with mutual dependencies
  (the dependencies of A hold the id of B and those of B the id of A), such that these
  ids resolve to A and B themselves: A and B are the first nodes in pre-order that carry
  their ids, which is the case whenever the ids of the forest are pairwise distinct.
  Then the dependency pass emits a \<open>CIRCULAR_DEPENDENCY\<close> error, not auto-fixable, on A and
  on B. Cycle detection is a depth-first walk over the dependency ids, each resolved by
  \<open>findNodeById\<close>; it signals a cycle exactly when a walk from the starting node reaches
  an id that is already on its path.
\<close>

theorem mutual_dependency_reported:
  "(findNodeById nodes (id_node a) = Some a \<and> findNodeById nodes (id_node b) = Some b
      \<and> id_node b \<in> set (dependencies a) \<and> id_node a \<in> set (dependencies b)
    \<longrightarrow> (\<exists>i \<in> set (validateDependencies nodes). code i = ''CIRCULAR_DEPENDENCY''
            \<and> type_issue i = Error \<and> \<not> autoFixable i \<and> nodeId i = Some (id_node a))
        \<and> (\<exists>i \<in> set (validateDependencies nodes). code i = ''CIRCULAR_DEPENDENCY''
            \<and> type_issue i = Error \<and> \<not> autoFixable i \<and> nodeId i = Some (id_node b)))
   \<and> (distinct (map id_node (traverseNodes nodes))
      \<and> a \<in> set (traverseNodes nodes) \<and> b \<in> set (traverseNodes nodes)
      \<and> id_node b \<in> set (dependencies a) \<and> id_node a \<in> set (dependencies b)
    \<longrightarrow> (\<exists>i \<in> set (validateDependencies nodes). code i = ''CIRCULAR_DEPENDENCY''
            \<and> type_issue i = Error \<and> \<not> autoFixable i \<and> nodeId i = Some (id_node a))
        \<and> (\<exists>i \<in> set (validateDependencies nodes). code i = ''CIRCULAR_DEPENDENCY''
            \<and> type_issue i = Error \<and> \<not> autoFixable i \<and> nodeId i = Some (id_node b)))
   \<and> (hasCircularDependency node nodes visited
        \<longleftrightarrow> (\<exists>path. depChain nodes (node # path)
              \<and> id_node (last (node # path))
                  \<in> visited \<union> id_node ` set (butlast (node # path))))"
proof -
  have resolved: "(\<exists>i \<in> set (validateDependencies nodes). code i = ''CIRCULAR_DEPENDENCY''
            \<and> type_issue i = Error \<and> \<not> autoFixable i \<and> nodeId i = Some (id_node x))"
    if fx: "findNodeById nodes (id_node x) = Some x"
      and fy: "findNodeById nodes (id_node y) = Some y"
      and xy: "id_node y \<in> set (dependencies x)" and yx: "id_node x \<in> set (dependencies y)"
    for x y
  proof -
    have "x \<in> set (traverseNodes nodes)"
      using fx by (rule findNodeById_mem)
    moreover have "dependencies x \<noteq> []"
      using xy by auto
    moreover have "hasCircularDependency x nodes {}"
      using fx fy xy yx by (rule mutual_hasCircularDependency)
    ultimately have "\<lparr> type_issue = Error, code = ''CIRCULAR_DEPENDENCY'',
           message = [Lit ''Node \"'', Str (title x), Lit ''\" has circular dependency''],
           nodeId = Some (id_node x), severity = High, autoFixable = False \<rparr>
         \<in> set (validateDependencies nodes)"
      by (rule circular_issue_pushed)
    then show ?thesis
      by (rule rev_bexI) simp
  qed
  have first: "findNodeById nodes (id_node a) = Some a \<and> findNodeById nodes (id_node b) = Some b
      \<and> id_node b \<in> set (dependencies a) \<and> id_node a \<in> set (dependencies b)
    \<longrightarrow> (\<exists>i \<in> set (validateDependencies nodes). code i = ''CIRCULAR_DEPENDENCY''
            \<and> type_issue i = Error \<and> \<not> autoFixable i \<and> nodeId i = Some (id_node a))
        \<and> (\<exists>i \<in> set (validateDependencies nodes). code i = ''CIRCULAR_DEPENDENCY''
            \<and> type_issue i = Error \<and> \<not> autoFixable i \<and> nodeId i = Some (id_node b))"
    using resolved [of a b] resolved [of b a] by blast
  have second: "distinct (map id_node (traverseNodes nodes))
      \<and> a \<in> set (traverseNodes nodes) \<and> b \<in> set (traverseNodes nodes)
      \<and> id_node b \<in> set (dependencies a) \<and> id_node a \<in> set (dependencies b)
    \<longrightarrow> (\<exists>i \<in> set (validateDependencies nodes). code i = ''CIRCULAR_DEPENDENCY''
            \<and> type_issue i = Error \<and> \<not> autoFixable i \<and> nodeId i = Some (id_node a))
        \<and> (\<exists>i \<in> set (validateDependencies nodes). code i = ''CIRCULAR_DEPENDENCY''
            \<and> type_issue i = Error \<and> \<not> autoFixable i \<and> nodeId i = Some (id_node b))"
    using first findNodeById_distinct [of nodes a] findNodeById_distinct [of nodes b] by blast
  show ?thesis
    using first second hasCircularDependency_walk [of node nodes visited] by blast
qed

text \<open>An instance: two tasks with distinct ids that depend on each other.\<close>

theorem mutual_dependency_reported_witness:
  "distinct (map id_node (traverseNodes
     [HTANode (js ''a'') (js ''task'') (js ''Write the parser'') None (js ''low'') (Some 8) [js ''b''] [],
      HTANode (js ''b'') (js ''task'') (js ''Test the parser'') None (js ''low'') (Some 8) [js ''a''] []]))
   \<and> (\<exists>i \<in> set (validateDependencies
     [HTANode (js ''a'') (js ''task'') (js ''Write the parser'') None (js ''low'') (Some 8) [js ''b''] [],
      HTANode (js ''b'') (js ''task'') (js ''Test the parser'') None (js ''low'') (Some 8) [js ''a''] []]).
        code i = ''CIRCULAR_DEPENDENCY'' \<and> type_issue i = Error \<and> \<not> autoFixable i
        \<and> nodeId i = Some (js ''a''))
   \<and> (\<exists>i \<in> set (validateDependencies
     [HTANode (js ''a'') (js ''task'') (js ''Write the parser'') None (js ''low'') (Some 8) [js ''b''] [],
      HTANode (js ''b'') (js ''task'') (js ''Test the parser'') None (js ''low'') (Some 8) [js ''a''] []]).
        code i = ''CIRCULAR_DEPENDENCY'' \<and> type_issue i = Error \<and> \<not> autoFixable i
        \<and> nodeId i = Some (js ''b''))"
proof -
  let ?a = "HTANode (js ''a'') (js ''task'') (js ''Write the parser'') None (js ''low'') (Some 8) [js ''b''] []"
  let ?b = "HTANode (js ''b'') (js ''task'') (js ''Test the parser'') None (js ''low'') (Some 8) [js ''a''] []"
  have d: "distinct (map id_node (traverseNodes [?a, ?b]))"
    by simp
  have m: "?a \<in> set (traverseNodes [?a, ?b])" "?b \<in> set (traverseNodes [?a, ?b])"
    "id_node ?b \<in> set (dependencies ?a)" "id_node ?a \<in> set (dependencies ?b)"
    by simp_all
  have "(\<exists>i \<in> set (validateDependencies [?a, ?b]). code i = ''CIRCULAR_DEPENDENCY''
            \<and> type_issue i = Error \<and> \<not> autoFixable i \<and> nodeId i = Some (id_node ?a))
        \<and> (\<exists>i \<in> set (validateDependencies [?a, ?b]). code i = ''CIRCULAR_DEPENDENCY''
            \<and> type_issue i = Error \<and> \<not> autoFixable i \<and> nodeId i = Some (id_node ?b))"
    using d m mutual_dependency_reported [of "[?a, ?b]" ?a ?b ?a "{}"] by blast
  then show ?thesis
    using d by simp
qed

text \<open>
  The claim as stated fails when ids repeat. In the forest below the third and the fourth
  node depend on each other, but their ids are also the ids of the first and the second
  node, which have no dependencies; every dependency id resolves to one of those, the
  walk ends there, and no \<open>CIRCULAR_DEPENDENCY\<close> issue is emitted.
\<close>

theorem mutual_dependency_counterexample:
  "HTANode (js ''a'') (js ''task'') (js ''Write the parser'') None (js ''low'') (Some 8) [js ''b''] []
     \<in> set (traverseNodes
         [HTANode (js ''a'') (js ''task'') (js ''Draft the plan'') None (js ''low'') (Some 8) [] [],
          HTANode (js ''b'') (js ''task'') (js ''Review the plan'') None (js ''low'') (Some 8) [] [],
          HTANode (js ''a'') (js ''task'') (js ''Write the parser'') None (js ''low'') (Some 8) [js ''b''] [],
          HTANode (js ''b'') (js ''task'') (js ''Test the parser'') None (js ''low'') (Some 8) [js ''a''] []])
   \<and> HTANode (js ''b'') (js ''task'') (js ''Test the parser'') None (js ''low'') (Some 8) [js ''a''] []
     \<in> set (traverseNodes
         [HTANode (js ''a'') (js ''task'') (js ''Draft the plan'') None (js ''low'') (Some 8) [] [],
          HTANode (js ''b'') (js ''task'') (js ''Review the plan'') None (js ''low'') (Some 8) [] [],
          HTANode (js ''a'') (js ''task'') (js ''Write the parser'') None (js ''low'') (Some 8) [js ''b''] [],
          HTANode (js ''b'') (js ''task'') (js ''Test the parser'') None (js ''low'') (Some 8) [js ''a''] []])
   \<and> id_node (HTANode (js ''b'') (js ''task'') (js ''Test the parser'') None (js ''low'') (Some 8) [js ''a''] [])
     \<in> set (dependencies
         (HTANode (js ''a'') (js ''task'') (js ''Write the parser'') None (js ''low'') (Some 8) [js ''b''] []))
   \<and> id_node (HTANode (js ''a'') (js ''task'') (js ''Write the parser'') None (js ''low'') (Some 8) [js ''b''] [])
     \<in> set (dependencies
         (HTANode (js ''b'') (js ''task'') (js ''Test the parser'') None (js ''low'') (Some 8) [js ''a''] []))
   \<and> \<not> (\<exists>i \<in> set (validateDependencies
         [HTANode (js ''a'') (js ''task'') (js ''Draft the plan'') None (js ''low'') (Some 8) [] [],
          HTANode (js ''b'') (js ''task'') (js ''Review the plan'') None (js ''low'') (Some 8) [] [],
          HTANode (js ''a'') (js ''task'') (js ''Write the parser'') None (js ''low'') (Some 8) [js ''b''] [],
          HTANode (js ''b'') (js ''task'') (js ''Test the parser'') None (js ''low'') (Some 8) [js ''a''] []]).
        code i = ''CIRCULAR_DEPENDENCY'')
   \<and> map code (validateDependencies
         [HTANode (js ''a'') (js ''task'') (js ''Draft the plan'') None (js ''low'') (Some 8) [] [],
          HTANode (js ''b'') (js ''task'') (js ''Review the plan'') None (js ''low'') (Some 8) [] [],
          HTANode (js ''a'') (js ''task'') (js ''Write the parser'') None (js ''low'') (Some 8) [js ''b''] [],
          HTANode (js ''b'') (js ''task'') (js ''Test the parser'') None (js ''low'') (Some 8) [js ''a''] []]) = []"
  by (simp add: validateDependencies_def validateDependencies_node_def)

subsection \<open>Failure of the validation process\<close>

text \<open>
  \<open>calculateMaxDepth\<close> returns on the forests without \<open>null\<close> slot, with the depth of
  the well-typed forest, and throws on the others.
\<close>

lemma typed_empty: "\<not> hasNull nodes \<Longrightarrow> typed nodes = [] \<longleftrightarrow> nodes = []"
  by (cases nodes rule: typed.cases) simp_all

lemma calculateMaxDepth_raw_typed:
  "\<not> hasNull nodes
     \<Longrightarrow> calculateMaxDepth_raw nodes currentDepth
         = Inr (calculateMaxDepth (typed nodes) currentDepth)"
  "\<not> hasNull nodes
     \<Longrightarrow> calculateMaxDepth_forEach_raw nodes currentDepth maxDepth
         = Inr (calculateMaxDepth_forEach (typed nodes) currentDepth maxDepth)"
proof (induction nodes currentDepth and nodes currentDepth maxDepth
    rule: calculateMaxDepth_raw_calculateMaxDepth_forEach_raw.induct)
  case (1 nodes currentDepth)
  then show ?case by simp
next
  case (2 currentDepth maxDepth)
  then show ?case by simp
next
  case (3 nodes currentDepth maxDepth)
  then show ?case by simp
next
  case (4 i t ti d p e deps cs nodes currentDepth maxDepth)
  then have nc: "\<not> hasNull cs" and nn: "\<not> hasNull nodes"
    by simp_all
  show ?case
  proof (cases "cs = []")
    case True
    then show ?thesis
      using "4.IH"(3) nn by simp
  next
    case False
    have c: "calculateMaxDepth_raw cs (currentDepth + 1)
               = Inr (calculateMaxDepth (typed cs) (currentDepth + 1))"
      using "4.IH"(1) False nc by simp
    have "calculateMaxDepth_forEach_raw nodes currentDepth
              (max maxDepth (calculateMaxDepth (typed cs) (currentDepth + 1)))
            = Inr (calculateMaxDepth_forEach (typed nodes) currentDepth
                (max maxDepth (calculateMaxDepth (typed cs) (currentDepth + 1))))"
      using "4.IH"(2) [OF _ c nn] False by simp
    then show ?thesis
      using False c typed_empty [OF nc] by simp
  qed
qed

lemma calculateMaxDepth_raw_Inl:
  "hasNull nodes \<Longrightarrow> calculateMaxDepth_raw nodes currentDepth = Inl TypeError"
  "hasNull nodes \<Longrightarrow> calculateMaxDepth_forEach_raw nodes currentDepth maxDepth = Inl TypeError"
proof (induction nodes currentDepth and nodes currentDepth maxDepth
    rule: calculateMaxDepth_raw_calculateMaxDepth_forEach_raw.induct)
  case (1 nodes currentDepth)
  then show ?case by simp
next
  case (2 currentDepth maxDepth)
  then show ?case by simp
next
  case (3 nodes currentDepth maxDepth)
  then show ?case by simp
next
  case (4 i t ti d p e deps cs nodes currentDepth maxDepth)
  show ?case
  proof (cases "hasNull cs")
    case True
    then have "cs \<noteq> []" by auto
    then show ?thesis
      using "4.IH"(1) True by simp
  next
    case False
    then have "hasNull nodes"
      using "4.prems" by simp
    then show ?thesis
      using "4.IH"(2,3) by (auto split: sum.splits intro: JsError.exhaust)
  qed
qed

text \<open>With a \<open>null\<close> slot anywhere in the forest, \<open>validateHTA\<close> throws.\<close>

lemma validateHTA_raw_null:
  "hasNull structure \<Longrightarrow> validateHTA_raw structure logger = Inl TypeError"
  by (simp add: validateHTA_raw_def calculateMetrics_raw_def calculateMaxDepth_raw_Inl(1)
      del: calculateMaxDepth_raw.simps)

text \<open>
  Without a \<open>null\<close> slot, a failure of the \<open>try\<close> block is answered by the degraded
  result: not valid, the one issue \<open>VALIDATION_ERROR\<close>, the one suggestion, score 0 and
  all metrics 0.
\<close>

lemma validateHTA_raw_caught:
  assumes "\<not> hasNull structure" and "hasStringDependencies structure"
  shows "validateHTA_raw structure logger = Inr (degradedResult, logger @ [ErrorFailed TypeError])"
proof -
  have "calculateMaxDepth_raw structure 0 = Inr (calculateMaxDepth (typed structure) 0)"
    using assms(1) by (rule calculateMaxDepth_raw_typed(1))
  then show ?thesis
    using assms(2)
    by (simp add: validateHTA_raw_def calculateMetrics_raw_def tryBlock_raw_def
        del: calculateMaxDepth_raw.simps)
qed

text \<open>Without either defect, \<open>validateHTA\<close> is the function of the well-typed forest.\<close>

lemma validateHTA_raw_typed:
  assumes "\<not> hasNull structure" and "\<not> hasStringDependencies structure"
  shows "validateHTA_raw structure logger = Inr (validateHTA (typed structure) logger)"
proof -
  have "calculateMaxDepth_raw structure 0 = Inr (calculateMaxDepth (typed structure) 0)"
    using assms(1) by (rule calculateMaxDepth_raw_typed(1))
  then show ?thesis
    using assms(2)
    by (simp add: validateHTA_raw_def calculateMetrics_raw_def tryBlock_raw_def validateHTA_def
        del: calculateMaxDepth_raw.simps)
qed

text \<open>
  Claim C2 (whenever the validation process fails, \<open>validateHTA\<close> does not raise and
  returns the degraded result) fails on a forest with a \<open>null\<close> slot: \<open>calculateMetrics\<close>
  runs before the \<open>try\<close> statement, its exception is not caught, and \<open>validateHTA\<close>
  raises a \<open>TypeError\<close> to its caller. This is so for the array \<open>[null]\<close> and for an
  objective one of whose children is \<open>null\<close>.
\<close>

theorem validateHTA_raw_null_raises:
  "validateHTA_raw [RawNull] logger = Inl TypeError
   \<and> validateHTA_raw
       [RawNode (js ''o1'') (js ''objective'') (js ''Launch'') (Some (js ''Go live'')) (js ''high'') None (DepArray [])
          [RawNode (js ''t1'') (js ''task'') (js ''Build it'') None (js ''low'') (Some 8) (DepArray []) [],
           RawNull]] logger = Inl TypeError"
  by (simp add: validateHTA_raw_def calculateMetrics_raw_def)

subsection \<open>Validity flag\<close>

text \<open>
  Claim C1. For every forest, the result of \<open>validateHTA\<close> has \<open>isValid = true\<close> if and
  only if its issues list holds no issue of type \<open>error\<close>. This holds for the result on
  a well-typed forest and for every result returned on a malformed one, the degraded
  result included.
\<close>

theorem validateHTA_isValid_iff_no_error:
  "(isValid (fst (validateHTA structure logger))
      \<longleftrightarrow> \<not> (\<exists>i \<in> set (issues (fst (validateHTA structure logger))). type_issue i = Error))
   \<and> (validateHTA_raw raw logger = Inr (result, logger')
      \<longrightarrow> (isValid result \<longleftrightarrow> \<not> (\<exists>i \<in> set (issues result). type_issue i = Error)))"
proof -
  have well_typed: "isValid (fst (validateHTA s l))
      \<longleftrightarrow> \<not> (\<exists>i \<in> set (issues (fst (validateHTA s l))). type_issue i = Error)" for s l
    by (simp add: validateHTA_def tryBlock_def Let_def filter_empty_conv)
  have "isValid result \<longleftrightarrow> \<not> (\<exists>i \<in> set (issues result). type_issue i = Error)"
    if returned: "validateHTA_raw raw logger = Inr (result, logger')"
  proof -
    have no_null: "\<not> hasNull raw"
      using returned validateHTA_raw_null [of raw logger] by auto
    show ?thesis
    proof (cases "hasStringDependencies raw")
      case True
      then have "result = degradedResult"
        using returned validateHTA_raw_caught [OF no_null True, of logger] by simp
      then show ?thesis
        by (simp add: degradedResult_def)
    next
      case False
      then have "result = fst (validateHTA (typed raw) logger)"
        using returned validateHTA_raw_typed [OF no_null False, of logger] by simp
      then show ?thesis
        using well_typed by simp
    qed
  qed
  then show ?thesis
    using well_typed by blast
qed

text \<open>
  An instance with an error: one \<open>task\<close> whose dependency names no node. The dangling
  dependency is reported as an error and the result is not valid.
\<close>

theorem validateHTA_isValid_iff_no_error_witness:
  "\<not> isValid (fst (validateHTA
       [HTANode (js ''t1'') (js ''task'') (js ''Write the report'') (Some (js ''All of it'')) (js ''low'') (Some 8)
          [js ''t9''] []] []))
   \<and> (\<exists>i \<in> set (issues (fst (validateHTA
       [HTANode (js ''t1'') (js ''task'') (js ''Write the report'') (Some (js ''All of it'')) (js ''low'') (Some 8)
          [js ''t9''] []] []))). type_issue i = Error)"
proof -
  have "\<not> isValid (fst (validateHTA
       [HTANode (js ''t1'') (js ''task'') (js ''Write the report'') (Some (js ''All of it'')) (js ''low'') (Some 8)
          [js ''t9''] []] []))"
    by (simp add: validateHTA_def tryBlock_def Let_def runPasses_def validateDependencies_def
        validateDependencies_node_def)
  then show ?thesis
    using validateHTA_isValid_iff_no_error [of
        "[HTANode (js ''t1'') (js ''task'') (js ''Write the report'') (Some (js ''All of it'')) (js ''low'') (Some 8)
            [js ''t9''] []]" "[]"]
    by blast
qed

end
